theory Spec2Isabelle
  imports Complex_Main "HOL-Library.AList" "HOL-Library.Sublist"
begin

unbundle bit_operations_syntax

section \<open>The digest library: SHA-256\<close>

text \<open>
  \<^verbatim>\<open>useDownload.ts\<close> imports \<^verbatim>\<open>Sha256\<close> from the Deno standard library
  (\<^verbatim>\<open>deno/hash/sha256.ts\<close>). The library is not part of the repository; it is
  modelled by the function it implements, SHA-256 of FIPS 180-4, rendered as 64 lower-case
  hex digits. A byte is a \<^typ>\<open>char\<close>; a \<^verbatim>\<open>Uint8Array\<close> and a (UTF-8 encoded) string
  are both a \<^typ>\<open>string\<close>. A 32-bit word is a natural number below \<open>2^32\<close>, with the
  wrap-around of the addition written out.
\<close>

type_synonym bytes = string

type_synonym u32 = nat

definition K256 :: "u32 list" where
  "K256 = [
   0x428A2F98, 0x71374491, 0xB5C0FBCF, 0xE9B5DBA5, 0x3956C25B, 0x59F111F1, 0x923F82A4, 0xAB1C5ED5,
   0xD807AA98, 0x12835B01, 0x243185BE, 0x550C7DC3, 0x72BE5D74, 0x80DEB1FE, 0x9BDC06A7, 0xC19BF174,
   0xE49B69C1, 0xEFBE4786, 0x0FC19DC6, 0x240CA1CC, 0x2DE92C6F, 0x4A7484AA, 0x5CB0A9DC, 0x76F988DA,
   0x983E5152, 0xA831C66D, 0xB00327C8, 0xBF597FC7, 0xC6E00BF3, 0xD5A79147, 0x06CA6351, 0x14292967,
   0x27B70A85, 0x2E1B2138, 0x4D2C6DFC, 0x53380D13, 0x650A7354, 0x766A0ABB, 0x81C2C92E, 0x92722C85,
   0xA2BFE8A1, 0xA81A664B, 0xC24B8B70, 0xC76C51A3, 0xD192E819, 0xD6990624, 0xF40E3585, 0x106AA070,
   0x19A4C116, 0x1E376C08, 0x2748774C, 0x34B0BCB5, 0x391C0CB3, 0x4ED8AA4A, 0x5B9CCA4F, 0x682E6FF3,
   0x748F82EE, 0x78A5636F, 0x84C87814, 0x8CC70208, 0x90BEFFFA, 0xA4506CEB, 0xBEF9A3F7, 0xC67178F2]"

type_synonym hstate = "u32 \<times> u32 \<times> u32 \<times> u32 \<times> u32 \<times> u32 \<times> u32 \<times> u32"

definition H256 :: hstate where
  "H256 = (0x6A09E667, 0xBB67AE85, 0x3C6EF372, 0xA54FF53A,
           0x510E527F, 0x9B05688C, 0x1F83D9AB, 0x5BE0CD19)"

definition add32 :: "u32 \<Rightarrow> u32 \<Rightarrow> u32" where
  "add32 x y = (x + y) mod 4294967296"

definition rotr :: "nat \<Rightarrow> u32 \<Rightarrow> u32" where
  "rotr n x = x div 2 ^ n + (x mod 2 ^ n) * 2 ^ (32 - n)"

definition shr :: "nat \<Rightarrow> u32 \<Rightarrow> u32" where
  "shr n x = x div 2 ^ n"

definition not32 :: "u32 \<Rightarrow> u32" where
  "not32 x = 4294967295 - x"

definition ch :: "u32 \<Rightarrow> u32 \<Rightarrow> u32 \<Rightarrow> u32" where
  "ch x y z = (x AND y) XOR (not32 x AND z)"

definition maj :: "u32 \<Rightarrow> u32 \<Rightarrow> u32 \<Rightarrow> u32" where
  "maj x y z = (x AND y) XOR (x AND z) XOR (y AND z)"

definition bsig0 :: "u32 \<Rightarrow> u32" where
  "bsig0 x = rotr 2 x XOR rotr 13 x XOR rotr 22 x"

definition bsig1 :: "u32 \<Rightarrow> u32" where
  "bsig1 x = rotr 6 x XOR rotr 11 x XOR rotr 25 x"

definition ssig0 :: "u32 \<Rightarrow> u32" where
  "ssig0 x = rotr 7 x XOR rotr 18 x XOR shr 3 x"

definition ssig1 :: "u32 \<Rightarrow> u32" where
  "ssig1 x = rotr 17 x XOR rotr 19 x XOR shr 10 x"

definition be_bytes :: "nat \<Rightarrow> nat \<Rightarrow> nat list" where
  "be_bytes k n = map (\<lambda>i. (n div 256 ^ (k - 1 - i)) mod 256) [0..<k]"

definition pad :: "bytes \<Rightarrow> nat list" where
  "pad m = map of_char m @ [128]
           @ replicate ((119 - length m mod 64) mod 64) 0
           @ be_bytes 8 (8 * length m)"

fun words_of :: "nat list \<Rightarrow> u32 list" where
  "words_of (a # b # c # d # r) = (((a * 256 + b) * 256 + c) * 256 + d) # words_of r"
| "words_of _ = []"

fun blocks_of :: "nat \<Rightarrow> u32 list \<Rightarrow> u32 list list" where
  "blocks_of 0 ws = []"
| "blocks_of (Suc n) ws = take 16 ws # blocks_of n (drop 16 ws)"

fun schedule :: "nat \<Rightarrow> u32 list \<Rightarrow> u32 list" where
  "schedule 0 w = w"
| "schedule (Suc n) w =
     (let t = length w
      in schedule n (w @ [add32 (add32 (ssig1 (w ! (t - 2))) (w ! (t - 7)))
                                (add32 (ssig0 (w ! (t - 15))) (w ! (t - 16)))]))"

fun round256 :: "hstate \<Rightarrow> u32 \<times> u32 \<Rightarrow> hstate" where
  "round256 (a, b, c, d, e, f, g, h) (k, w) =
     (let t1 = add32 (add32 (add32 h (bsig1 e)) (add32 (ch e f g) k)) w;
          t2 = add32 (bsig0 a) (maj a b c)
      in (add32 t1 t2, a, b, c, add32 d t1, e, f, g))"

fun add_state :: "hstate \<Rightarrow> hstate \<Rightarrow> hstate" where
  "add_state (a, b, c, d, e, f, g, h) (a', b', c', d', e', f', g', h') =
     (add32 a a', add32 b b', add32 c c', add32 d d',
      add32 e e', add32 f f', add32 g g', add32 h h')"

definition compress :: "hstate \<Rightarrow> u32 list \<Rightarrow> hstate" where
  "compress hs block = add_state hs (foldl round256 hs (zip K256 (schedule 48 block)))"

fun state_words :: "hstate \<Rightarrow> u32 list" where
  "state_words (a, b, c, d, e, f, g, h) = [a, b, c, d, e, f, g, h]"

definition hex_digit :: "nat \<Rightarrow> char" where
  "hex_digit n = ''0123456789abcdef'' ! (n mod 16)"

definition hex_word :: "u32 \<Rightarrow> string" where
  "hex_word w = map (\<lambda>i. hex_digit (w div 16 ^ (7 - i))) [0..<8]"

definition sha256 :: "bytes \<Rightarrow> string" where
  "sha256 m =
     concat (map hex_word
       (state_words (foldl compress H256
          (blocks_of (length (words_of (pad m)) div 16) (words_of (pad m))))))"

section \<open>URLs\<close>

text \<open>
  The components of a parsed WHATWG \<^verbatim>\<open>URL\<close>, and the getters the code reads. The
  getters follow the URL standard: \<^verbatim>\<open>protocol\<close> is the scheme followed by a colon,
  \<^verbatim>\<open>host\<close> is the hostname with the port when there is one, and \<^verbatim>\<open>search\<close> is
  empty when the query is absent or empty, and otherwise a question mark followed by the
  query.
\<close>

record URL =
  scheme :: string
  hostname :: string
  port :: string
  pathname :: string
  query :: "string option"

definition protocol :: "URL \<Rightarrow> string" where
  "protocol u = scheme u @ '':''"

definition host :: "URL \<Rightarrow> string" where
  "host u = hostname u @ (if port u = [] then [] else '':'' @ port u)"

definition search :: "URL \<Rightarrow> string" where
  "search u = (case query u of None \<Rightarrow> [] | Some q \<Rightarrow> if q = [] then [] else ''?'' @ q)"

section \<open>Paths and the file system\<close>

text \<open>
  Modelled from the spec: the \<^verbatim>\<open>Path\<close> class (\<^verbatim>\<open>import Path from "path"\<close>) is code of
  the repository that is not under \<^verbatim>\<open>src/\<close>. The spec uses it as a normalised absolute
  path: \<^verbatim>\<open><cache-root>/<scheme>/<host>/<hash>\<close> for the cache key,
  \<^verbatim>\<open><CacheKey>/mtime\<close> for the marker and \<^verbatim>\<open><CacheKey>/<basename-of-path>\<close> for the
  payload. A path is the list of its components below the root; joining splits the joined
  string at slashes and drops empty components.
\<close>

type_synonym path = "string list"

fun segments :: "string \<Rightarrow> string list" where
  "segments [] = [[]]"
| "segments (c # cs) =
     (if c = CHR ''/'' then [] # segments cs
      else (case segments cs of [] \<Rightarrow> [[c]] | s # ss \<Rightarrow> (c # s) # ss))"

definition components :: "string \<Rightarrow> string list" where
  "components s = filter (\<lambda>x. x \<noteq> []) (segments s)"

definition join :: "path \<Rightarrow> string \<Rightarrow> path" where
  "join p s = p @ components s"

definition basename :: "path \<Rightarrow> string" where
  "basename p = (if p = [] then [] else last p)"

definition parent :: "path \<Rightarrow> path" where
  "parent p = butlast p"

text \<open>
  Modelled from the spec: \<^verbatim>\<open>src.path()\<close> is an extension of \<^verbatim>\<open>URL\<close> made elsewhere
  in the repository; the payload is named by the "basename of the URL path", so it is the
  path of the URL's \<^verbatim>\<open>pathname\<close>.
\<close>

definition url_path :: "URL \<Rightarrow> path" where
  "url_path u = components (pathname u)"

text \<open>
  The world the code acts on: the regular files with their bytes, the directories, and the
  trace of what the call did that the claims speak about (requests sent, bytes written,
  lines handed to the logger). The logger's colours and \<^verbatim>\<open>pretty_size\<close> only format
  the line; a message keeps the value that is printed.
\<close>

type_synonym headers = "(string \<times> string) list"

datatype message = Querying | Downloading "nat option" | Percent int | Cache_hit | Verifying

datatype event =
    Fetch URL headers
  | Truncate path
  | Write path bytes
  | Write_text path string
  | Log message

record world =
  files :: "path \<rightharpoonup> bytes"
  dirs :: "path set"
  trace :: "event list"

datatype error =
    Unsupported_scheme
  | Unexpected_status nat URL
  | Panic
  | IO_error
  | Transport_error

definition emit :: "event \<Rightarrow> 'a world_scheme \<Rightarrow> 'a world_scheme" where
  "emit e w = w\<lparr>trace := trace w @ [e]\<rparr>"

text \<open>
  Modelled from the spec: \<^verbatim>\<open>isFile\<close> and \<^verbatim>\<open>isReadableFile\<close> of \<^verbatim>\<open>Path\<close> say that
  the marker file, or the payload file, "exists"; permissions are not modelled.
\<close>

definition isFile :: "'a world_scheme \<Rightarrow> path \<Rightarrow> bool" where
  "isFile w p = (files w p \<noteq> None)"

definition isReadableFile :: "'a world_scheme \<Rightarrow> path \<Rightarrow> bool" where
  "isReadableFile w p = isFile w p"

text \<open>
  Modelled from the spec: \<^verbatim>\<open>mkpath\<close> creates the directory "including parents, if
  absent"; it fails with an I/O error where a regular file is in the way.
\<close>

definition mkpath :: "path \<Rightarrow> 'a world_scheme \<Rightarrow> (error + path) \<times> 'a world_scheme" where
  "mkpath p w =
     (if list_ex (\<lambda>q. q \<notin> dirs w \<and> isFile w q) (prefixes p) then (Inl IO_error, w)
      else (Inr p, w\<lparr>dirs := dirs w \<union> set (prefixes p)\<rparr>))"

text \<open>
  \<^verbatim>\<open>Deno.open(p, {create: true, write: true, truncate: true})\<close>: the file is created or
  emptied; it fails when \<open>p\<close> is a directory or its parent directory does not exist.
\<close>

definition open_truncate :: "path \<Rightarrow> 'a world_scheme \<Rightarrow> (error + unit) \<times> 'a world_scheme" where
  "open_truncate p w =
     (if p = [] \<or> p \<in> dirs w \<or> parent p \<notin> dirs w then (Inl IO_error, w)
      else (Inr (), emit (Truncate p) (w\<lparr>files := (files w)(p \<mapsto> [])\<rparr>)))"

text \<open>One \<^verbatim>\<open>write(buf)\<close> on the open file: the bytes are appended.\<close>

definition write_chunk :: "path \<Rightarrow> bytes \<Rightarrow> 'a world_scheme \<Rightarrow> 'a world_scheme" where
  "write_chunk p buf w =
     emit (Write p buf)
       (w\<lparr>files := (files w)(p \<mapsto> (case files w p of None \<Rightarrow> buf | Some old \<Rightarrow> old @ buf))\<rparr>)"

text \<open>
  Modelled from the spec: \<^verbatim>\<open>Path.write({text, force: true})\<close> "overwrites the marker
  file with value".
\<close>

definition write_text :: "path \<Rightarrow> string \<Rightarrow> 'a world_scheme \<Rightarrow> (error + unit) \<times> 'a world_scheme" where
  "write_text p text w =
     (if p = [] \<or> p \<in> dirs w \<or> parent p \<notin> dirs w then (Inl IO_error, w)
      else (Inr (), emit (Write_text p text) (w\<lparr>files := (files w)(p \<mapsto> text)\<rparr>)))"

section \<open>Collaborators: configuration, environment, the origin server\<close>

text \<open>
  What the code reads from outside: \<^verbatim>\<open>useFlags().numpty\<close>, \<^verbatim>\<open>usePrefix().www\<close>, the
  environment variables \<^verbatim>\<open>GITHUB_TOKEN\<close> and \<^verbatim>\<open>CI\<close>, and the answer of
  \<^verbatim>\<open>fetch\<close> (\<open>None\<close> when the transport fails). A response body is the chunks the
  copy loop hands to its writer; \<open>broken\<close> says that reading fails after they have been
  delivered. \<open>tee_order\<close> is the order in which the runtime lets the two consumers of a
  tee'd body take their next chunk (\<open>True\<close>: the disk writer).
\<close>

record stream =
  chunks :: "bytes list"
  broken :: bool

record response =
  status :: nat
  rsp_headers :: headers
  body :: "stream option"

record env =
  numpty :: bool
  www :: path
  GITHUB_TOKEN :: "string option"
  CI :: "string option"
  fetch :: "URL \<Rightarrow> headers \<Rightarrow> response option"
  tee_order :: "bool list"

definition header_get :: "response \<Rightarrow> string \<Rightarrow> string option" where
  "header_get rsp name = map_of (rsp_headers rsp) name"

text \<open>A JavaScript string option is falsy when it is \<^verbatim>\<open>undefined\<close> or empty.\<close>

definition falsy :: "string option \<Rightarrow> bool" where
  "falsy v = (case v of None \<Rightarrow> True | Some s \<Rightarrow> s = [])"

text \<open>
  \<^verbatim>\<open>parseInt\<close> of ECMAScript on a byte string: leading white space, a sign, an optional
  \<^verbatim>\<open>0x\<close> prefix, then the longest run of digits; \<open>None\<close> is \<^verbatim>\<open>NaN\<close>. (Values
  beyond \<open>2^53\<close> are rounded by JavaScript and exact here.)
\<close>

definition is_space :: "char \<Rightarrow> bool" where
  "is_space c = ((of_char c :: nat) \<in> {9, 10, 11, 12, 13, 32})"

definition digit_value :: "char \<Rightarrow> nat" where
  "digit_value c =
     (let n = (of_char c :: nat)
      in if 48 \<le> n \<and> n \<le> 57 then n - 48
         else if 97 \<le> n \<and> n \<le> 122 then n - 87
         else if 65 \<le> n \<and> n \<le> 90 then n - 55
         else 36)"

definition parseInt :: "string \<Rightarrow> int option" where
  "parseInt input =
     (let s1 = dropWhile is_space input;
          neg = (take 1 s1 = ''-'');
          s2 = (if take 1 s1 = ''-'' \<or> take 1 s1 = ''+'' then drop 1 s1 else s1);
          hex = (take 2 s2 = ''0x'' \<or> take 2 s2 = ''0X'');
          radix = (if hex then 16 else 10);
          s3 = (if hex then drop 2 s2 else s2);
          ds = takeWhile (\<lambda>c. digit_value c < radix) s3;
          v = foldl (\<lambda>a c. a * radix + digit_value c) 0 ds
      in if ds = [] then None else Some (if neg then - int v else int v))"

text \<open>
  Modelled from the spec: \<^verbatim>\<open>chuzzle\<close> comes from \<^verbatim>\<open>utils\<close>, which is not under
  \<^verbatim>\<open>src/\<close>. The spec takes \<^verbatim>\<open>Content-Length\<close> "if present and parseable as a positive
  integer; otherwise treated as unknown size".
\<close>

definition chuzzle :: "int option \<Rightarrow> nat option" where
  "chuzzle x = (case x of None \<Rightarrow> None | Some n \<Rightarrow> if 0 < n then Some (nat n) else None)"

section \<open>\<^verbatim>\<open>hash_key\<close> (lines 140--153)\<close>

definition formatted :: "URL \<Rightarrow> string" where
  "formatted url = pathname url @ (if search url \<noteq> [] then ''?'' @ search url else [])"

definition hash :: "URL \<Rightarrow> string" where
  "hash url = sha256 (formatted url)"

definition cache_key :: "env \<Rightarrow> URL \<Rightarrow> path" where
  "cache_key e url = join (join (join (www e) (butlast (protocol url))) (hostname url)) (hash url)"

definition hash_key :: "env \<Rightarrow> URL \<Rightarrow> 'a world_scheme \<Rightarrow> (error + path) \<times> 'a world_scheme" where
  "hash_key e url w = mkpath (cache_key e url) w"

section \<open>\<^verbatim>\<open>internal\<close> (lines 25--93)\<close>

text \<open>
  \<^verbatim>\<open>headers\<close> left out by the caller is the empty list: \<^verbatim>\<open>fetch\<close> sends the same
  request for \<^verbatim>\<open>undefined\<close> and for \<^verbatim>\<open>{}\<close>. The memo of the closure \<^verbatim>\<open>hash\<close>
  only spares a second \<^verbatim>\<open>mkpath\<close> of a directory that the first call has made, which
  changes nothing (\<open>mkpath_again\<close> below), so every use of \<^verbatim>\<open>hash()\<close> is a call of
  \<open>hash_key\<close>. \<^verbatim>\<open>console.verbose\<close> on line 30 changes nothing that is modelled.
\<close>

record DownloadOptions =
  src :: URL
  dst :: "path option"
  headers :: headers
  ephemeral :: bool

definition mtime_entry :: "env \<Rightarrow> URL \<Rightarrow> 'a world_scheme \<Rightarrow> (error + path) \<times> 'a world_scheme" where
  "mtime_entry e url w =
     (case hash_key e url w of
        (Inl err, w') \<Rightarrow> (Inl err, w')
      | (Inr k, w') \<Rightarrow> (Inr (join k ''mtime''), w'))"

text \<open>Line 39: \<^verbatim>\<open>dst ??= hash().join(src.path().basename())\<close>.\<close>

definition default_dst ::
  "env \<Rightarrow> DownloadOptions \<Rightarrow> 'a world_scheme \<Rightarrow> (error + path) \<times> 'a world_scheme" where
  "default_dst e opts w =
     (case dst opts of
        Some d \<Rightarrow> (Inr d, w)
      | None \<Rightarrow>
          (case hash_key e (src opts) w of
             (Inl err, w') \<Rightarrow> (Inl err, w')
           | (Inr k, w') \<Rightarrow> (Inr (join k (basename (url_path (src opts)))), w')))"

text \<open>Lines 42--48: the conditional header.\<close>

definition conditional ::
  "env \<Rightarrow> DownloadOptions \<Rightarrow> path \<Rightarrow> 'a world_scheme \<Rightarrow> (error + headers) \<times> 'a world_scheme" where
  "conditional e opts d w =
     (if ephemeral opts then (Inr (headers opts), emit (Log (Downloading None)) w)
      else
        (case mtime_entry e (src opts) w of
           (Inl err, w') \<Rightarrow> (Inl err, w')
         | (Inr m, w') \<Rightarrow>
             if isFile w' m \<and> isReadableFile w' d then
               (case files w' m of
                  None \<Rightarrow> (Inl IO_error, w')
                | Some text \<Rightarrow>
                    (Inr (AList.update ''If-Modified-Since'' text (headers opts)),
                     emit (Log Querying) w'))
             else (Inr (headers opts), emit (Log (Downloading None)) w')))"

text \<open>
  Lines 51--57: the regular expression \<^verbatim>\<open>/(^|\.)github.com$/\<close> on \<^verbatim>\<open>src.host\<close> (its
  second dot is not escaped and stands for any character but a line terminator).
\<close>

definition github_host :: "string \<Rightarrow> bool" where
  "github_host h =
     (let n = length h
      in 10 \<le> n \<and> take 6 (drop (n - 10) h) = ''github''
         \<and> (of_char (h ! (n - 4)) :: nat) \<notin> {10, 13}
         \<and> drop (n - 3) h = ''com''
         \<and> (n = 10 \<or> h ! (n - 11) = CHR ''.''))"

definition authorization :: "env \<Rightarrow> URL \<Rightarrow> headers \<Rightarrow> headers" where
  "authorization e url hs =
     (if github_host (host url) then
        (case GITHUB_TOKEN e of
           None \<Rightarrow> hs
         | Some token \<Rightarrow>
             if token \<noteq> [] then AList.update ''Authorization'' (''bearer '' @ token) hs else hs)
      else hs)"

text \<open>Lines 28--57: the destination and the headers of the request.\<close>

definition internal_request ::
  "env \<Rightarrow> DownloadOptions \<Rightarrow> 'a world_scheme \<Rightarrow> (error + path \<times> headers) \<times> 'a world_scheme" where
  "internal_request e opts w =
     (case default_dst e opts w of
        (Inl err, w1) \<Rightarrow> (Inl err, w1)
      | (Inr d, w1) \<Rightarrow>
          if protocol (src opts) = ''file:'' then (Inl Unsupported_scheme, w1)
          else
            (case conditional e opts d w1 of
               (Inl err, w2) \<Rightarrow> (Inl err, w2)
             | (Inr hs, w2) \<Rightarrow> (Inr (d, authorization e (src opts) hs), w2)))"

text \<open>Line 63: \<^verbatim>\<open>chuzzle(parseInt(rsp.headers.get("Content-Length")!))\<close>.\<close>

definition content_length :: "response \<Rightarrow> nat option" where
  "content_length rsp =
     chuzzle (parseInt (case header_get rsp ''Content-Length'' of
                          None \<Rightarrow> ''null'' | Some v \<Rightarrow> v))"

text \<open>Lines 76--77: the marker is written when the header is there and not empty.\<close>

definition write_mtime ::
  "env \<Rightarrow> URL \<Rightarrow> response \<Rightarrow> 'a world_scheme \<Rightarrow> (error + unit) \<times> 'a world_scheme" where
  "write_mtime e url rsp w =
     (case header_get rsp ''Last-Modified'' of
        None \<Rightarrow> (Inr (), w)
      | Some text \<Rightarrow>
          if text = [] then (Inr (), w)
          else
            (case mtime_entry e url w of
               (Inl err, w') \<Rightarrow> (Inl err, w')
             | (Inr m, w') \<Rightarrow> write_text m text w'))"

text \<open>
  Lines 62--82: \<^verbatim>\<open>case 200\<close>. A response without a body raises (\<^verbatim>\<open>panic()\<close>). The
  file is opened, and so emptied, before the body is read; \<^verbatim>\<open>finally\<close> only closes the
  handle.
\<close>

definition status_200 ::
  "env \<Rightarrow> DownloadOptions \<Rightarrow> path \<Rightarrow> response
   \<Rightarrow> (stream \<Rightarrow> path \<Rightarrow> nat option \<Rightarrow> 'a world_scheme \<Rightarrow> (error + unit) \<times> 'a world_scheme)
   \<Rightarrow> 'a world_scheme \<Rightarrow> (error + unit) \<times> 'a world_scheme" where
  "status_200 e opts d rsp bodyf w =
     (let sz = content_length rsp;
          w1 = emit (Log (Downloading sz)) w
      in case body rsp of
           None \<Rightarrow> (Inl Panic, w1)
         | Some reader \<Rightarrow>
             (case open_truncate d w1 of
                (Inl err, w2) \<Rightarrow> (Inl err, w2)
              | (Inr f, w2) \<Rightarrow>
                  (case mkpath (parent d) w2 of
                     (Inl err, w3) \<Rightarrow> (Inl err, w3)
                   | (Inr p, w3) \<Rightarrow>
                       (case bodyf reader d sz w3 of
                          (Inl err, w4) \<Rightarrow> (Inl err, w4)
                        | (Inr r, w4) \<Rightarrow> write_mtime e (src opts) rsp w4))))"

definition internal ::
  "env \<Rightarrow> DownloadOptions
   \<Rightarrow> (stream \<Rightarrow> path \<Rightarrow> nat option \<Rightarrow> 'a world_scheme \<Rightarrow> (error + unit) \<times> 'a world_scheme)
   \<Rightarrow> 'a world_scheme \<Rightarrow> (error + path) \<times> 'a world_scheme" where
  "internal e opts bodyf w =
     (case internal_request e opts w of
        (Inl err, w1) \<Rightarrow> (Inl err, w1)
      | (Inr (d, hs), w1) \<Rightarrow>
          (case fetch e (src opts) hs of
             None \<Rightarrow> (Inl Transport_error, emit (Fetch (src opts) hs) w1)
           | Some rsp \<Rightarrow>
               (let w2 = emit (Fetch (src opts) hs) w1
                in if status rsp = 200 then
                     (case status_200 e opts d rsp bodyf w2 of
                        (Inl err, w3) \<Rightarrow> (Inl err, w3)
                      | (Inr u, w3) \<Rightarrow> (Inr d, w3))
                   else if status rsp = 304 then (Inr d, emit (Log Cache_hit) w2)
                   else if \<not> numpty e \<or> \<not> isFile w2 d then
                     (Inl (Unexpected_status (status rsp) (src opts)), w2)
                   else (Inr d, w2))))"

section \<open>\<^verbatim>\<open>download\<close> (lines 95--97)\<close>

text \<open>
  \<^verbatim>\<open>copy(reader, dst)\<close>: every chunk is written to the open file; a broken stream
  raises once its chunks are through.
\<close>

definition copy :: "stream \<Rightarrow> path \<Rightarrow> 'a world_scheme \<Rightarrow> (error + unit) \<times> 'a world_scheme" where
  "copy reader f w =
     (if broken reader then Inl Transport_error else Inr (),
      foldl (\<lambda>w' buf. write_chunk f buf w') w (chunks reader))"

definition download ::
  "env \<Rightarrow> DownloadOptions \<Rightarrow> world \<Rightarrow> (error + path) \<times> world" where
  "download e opts w = internal e opts (\<lambda>reader f sz. copy reader f) w"

section \<open>\<^verbatim>\<open>download_with_sha\<close> (lines 99--138)\<close>

text \<open>
  The variables the body callback closes over, \<^verbatim>\<open>digest\<close> and \<^verbatim>\<open>run\<close>, extend the
  world. The running digest is the bytes fed to \<^verbatim>\<open>update\<close> so far; \<^verbatim>\<open>hex()\<close> is
  \<^const>\<open>sha256\<close> of them.
\<close>

record sha_world = world +
  digest :: bytes
  run :: bool

text \<open>Lines 114--123: the writer of the second consumer.\<close>

definition hash_write :: "env \<Rightarrow> nat option \<Rightarrow> bytes \<Rightarrow> nat \<times> sha_world \<Rightarrow> nat \<times> sha_world" where
  "hash_write e sz buf ns =
     (case ns of (n, s) \<Rightarrow>
        (let s1 = s\<lparr>digest := digest s @ buf\<rparr>
         in case sz of
              None \<Rightarrow> (n, s1)
            | Some z \<Rightarrow>
                if z \<noteq> 0 \<and> falsy (CI e) then
                  (let n' = n + length buf;
                       pc = round (real n' / real z * 100)
                   in (n', emit (Log (Percent pc)) s1))
                else (n, s1)))"

text \<open>
  Lines 112--124: the two copies of the tee'd body run concurrently; each sees all chunks
  in order, and \<open>order\<close> picks who moves next while both have chunks left.
\<close>

fun tee ::
  "env \<Rightarrow> path \<Rightarrow> nat option \<Rightarrow> bool list \<Rightarrow> bytes list \<Rightarrow> bytes list
   \<Rightarrow> nat \<times> sha_world \<Rightarrow> nat \<times> sha_world" where
  "tee e f sz order [] [] ns = ns"
| "tee e f sz order (c # cs) [] ns = tee e f sz order cs [] (fst ns, write_chunk f c (snd ns))"
| "tee e f sz order [] (d # ds) ns = tee e f sz order [] ds (hash_write e sz d ns)"
| "tee e f sz [] (c # cs) (d # ds) ns =
     tee e f sz [] cs (d # ds) (fst ns, write_chunk f c (snd ns))"
| "tee e f sz (True # order) (c # cs) (d # ds) ns =
     tee e f sz order cs (d # ds) (fst ns, write_chunk f c (snd ns))"
| "tee e f sz (False # order) (c # cs) (d # ds) ns =
     tee e f sz order (c # cs) ds (hash_write e sz d ns)"

definition sha_body ::
  "env \<Rightarrow> stream \<Rightarrow> path \<Rightarrow> nat option \<Rightarrow> sha_world \<Rightarrow> (error + unit) \<times> sha_world" where
  "sha_body e reader f sz s =
     (if broken reader then Inl Transport_error else Inr (),
      snd (tee e f sz (tee_order e) (chunks reader) (chunks reader) (0, s\<lparr>run := True\<rparr>)))"

definition sha_init :: "world \<Rightarrow> sha_world" where
  "sha_init w = \<lparr>files = files w, dirs = dirs w, trace = trace w, digest = [], run = False\<rparr>"

definition world_of :: "sha_world \<Rightarrow> world" where
  "world_of s = \<lparr>files = files s, dirs = dirs s, trace = trace s\<rparr>"

definition download_with_sha ::
  "env \<Rightarrow> DownloadOptions \<Rightarrow> world \<Rightarrow> (error + path \<times> string) \<times> world" where
  "download_with_sha e opts w =
     (case internal e opts (sha_body e) (sha_init w) of
        (Inl err, s) \<Rightarrow> (Inl err, world_of s)
      | (Inr p, s) \<Rightarrow>
          if \<not> run s then
            (let s1 = emit (Log Verifying) s
             in case files s1 p of
                  None \<Rightarrow> (Inl IO_error, world_of s1)
                | Some content \<Rightarrow> (Inr (p, sha256 (digest s1 @ content)), world_of s1))
          else (Inr (p, sha256 (digest s)), world_of s))"

section \<open>Vocabulary of the claims\<close>

text \<open>
  The names the spec uses, written over the model: the freshness marker
  \<^verbatim>\<open><CacheKey>/mtime\<close>, the destination of a call, the usable baseline (the stored
  value, when the marker file and the payload file both exist), the headers that
  \<^verbatim>\<open>internal\<close> hands to \<^verbatim>\<open>fetch\<close>, and the \<^verbatim>\<open>Last-Modified\<close> value that
  line 77 accepts.
\<close>

definition marker :: "env \<Rightarrow> URL \<Rightarrow> path" where
  "marker e url = join (cache_key e url) ''mtime''"

definition destination :: "env \<Rightarrow> DownloadOptions \<Rightarrow> path" where
  "destination e opts =
     (case dst opts of
        Some d \<Rightarrow> d
      | None \<Rightarrow> join (cache_key e (src opts)) (basename (url_path (src opts))))"

definition baseline :: "env \<Rightarrow> DownloadOptions \<Rightarrow> 'a world_scheme \<Rightarrow> string option" where
  "baseline e opts w =
     (if isFile w (marker e (src opts)) \<and> isReadableFile w (destination e opts)
      then files w (marker e (src opts)) else None)"

definition request_headers :: "env \<Rightarrow> DownloadOptions \<Rightarrow> 'a world_scheme \<Rightarrow> headers" where
  "request_headers e opts w =
     authorization e (src opts)
       (case (if ephemeral opts then None else baseline e opts w) of
          None \<Rightarrow> headers opts
        | Some text \<Rightarrow> AList.update ''If-Modified-Since'' text (headers opts))"

definition last_modified :: "response \<Rightarrow> string option" where
  "last_modified rsp =
     (case header_get rsp ''Last-Modified'' of
        None \<Rightarrow> None
      | Some text \<Rightarrow> if text = [] then None else Some text)"

text \<open>
  The percentage of line 119 after \<open>n\<close> of \<open>z\<close> declared bytes (\<^verbatim>\<open>Math.round\<close> rounds
  half up, as \<^const>\<open>round\<close> does; the quotient is exact here and an IEEE double in
  JavaScript), the byte counts after each chunk, and the percentages a body produces.
\<close>

definition pct :: "nat \<Rightarrow> nat \<Rightarrow> int" where
  "pct z n = round (real n / real z * 100)"

fun totals :: "nat \<Rightarrow> bytes list \<Rightarrow> nat list" where
  "totals n [] = []"
| "totals n (buf # bufs) = (n + length buf) # totals (n + length buf) bufs"

definition progress :: "env \<Rightarrow> nat option \<Rightarrow> nat \<Rightarrow> bytes list \<Rightarrow> int list" where
  "progress e sz n bufs =
     (case sz of
        None \<Rightarrow> []
      | Some z \<Rightarrow> if z \<noteq> 0 \<and> falsy (CI e) then map (pct z) (totals n bufs) else [])"

text \<open>Readings of a trace: the percentages logged, and the kinds of event.\<close>

definition percents :: "event list \<Rightarrow> int list" where
  "percents evs = concat (map (\<lambda>ev. case ev of Log (Percent p) \<Rightarrow> [p] | _ \<Rightarrow> []) evs)"

definition streamed :: "path \<Rightarrow> event \<Rightarrow> bool" where
  "streamed f ev = (case ev of Write p buf \<Rightarrow> p = f | Log (Percent p) \<Rightarrow> True | _ \<Rightarrow> False)"

definition marker_write :: "event \<Rightarrow> bool" where
  "marker_write ev = (case ev of Write_text p text \<Rightarrow> True | _ \<Rightarrow> False)"

text \<open>
  What \<^verbatim>\<open>internal\<close> needs of its body callback: it appends the chunks of the stream to
  the open file, touches nothing else, and fails exactly when the stream is broken.
  Both callbacks of the source meet it (\<open>body_spec_copy\<close>, \<open>body_spec_sha_body\<close>).
\<close>

definition body_spec ::
  "(stream \<Rightarrow> path \<Rightarrow> nat option \<Rightarrow> 'a world_scheme \<Rightarrow> (error + unit) \<times> 'a world_scheme) \<Rightarrow> bool" where
  "body_spec bodyf =
     (\<forall>reader f sz w r w'. bodyf reader f sz w = (r, w') \<longrightarrow>
        dirs w' = dirs w \<and> (r = Inr () \<longleftrightarrow> \<not> broken reader) \<and>
        (\<forall>old. files w f = Some old \<longrightarrow> files w' = (files w)(f \<mapsto> old @ concat (chunks reader))) \<and>
        (\<exists>evs. trace w' = trace w @ evs \<and> (\<forall>ev \<in> set evs. streamed f ev)))"

section \<open>Concrete inputs\<close>

text \<open>
  The URL of the spec's scenario, \<^verbatim>\<open>https://example.com/a/b.tar.gz?v=2\<close>, a cache root,
  a cache that holds an earlier download of it, and origin servers with fixed answers.
\<close>

definition example_url :: URL where
  "example_url = \<lparr>scheme = ''https'', hostname = ''example.com'', port = [],
                   pathname = ''/a/b.tar.gz'', query = Some ''v=2''\<rparr>"

definition example_env :: "(URL \<Rightarrow> headers \<Rightarrow> response option) \<Rightarrow> env" where
  "example_env server = \<lparr>numpty = False, www = [''tea'', ''www''], GITHUB_TOKEN = None, CI = None,
                          fetch = server, tee_order = [False, True]\<rparr>"

definition example_opts :: DownloadOptions where
  "example_opts = \<lparr>src = example_url, dst = None, headers = [], ephemeral = False\<rparr>"

definition example_key :: path where
  "example_key = [''tea'', ''www'', ''https'', ''example.com'', sha256 ''/a/b.tar.gz??v=2'']"

definition cached_world :: world where
  "cached_world =
     \<lparr>files = [example_key @ [''mtime''] \<mapsto> ''Wed, 21 Oct 2015 07:28:00 GMT'',
               example_key @ [''b.tar.gz''] \<mapsto> ''payload''],
      dirs = set (prefixes example_key),
      trace = []\<rparr>"

definition not_modified :: "URL \<Rightarrow> headers \<Rightarrow> response option" where
  "not_modified url hs = Some \<lparr>status = 304, rsp_headers = [], body = None\<rparr>"

definition server_error :: "URL \<Rightarrow> headers \<Rightarrow> response option" where
  "server_error url hs = Some \<lparr>status = 500, rsp_headers = [], body = None\<rparr>"

text \<open>
  An empty disk; a call that bypasses the cache; a caller that brings a conditional header
  of its own; origins that answer 200, with a \<^verbatim>\<open>Last-Modified\<close> or a
  \<^verbatim>\<open>Content-Length\<close> header, or with a body that breaks off.
\<close>

definition fresh_world :: world where
  "fresh_world = \<lparr>files = Map.empty, dirs = {[]}, trace = []\<rparr>"

definition ephemeral_opts :: DownloadOptions where
  "ephemeral_opts = \<lparr>src = example_url, dst = None, headers = [], ephemeral = True\<rparr>"

definition caller_conditional_opts :: DownloadOptions where
  "caller_conditional_opts =
     \<lparr>src = example_url, dst = None,
      headers = [(''If-Modified-Since'', ''Thu, 01 Jan 1970 00:00:00 GMT'')], ephemeral = True\<rparr>"

definition modified :: "bytes list \<Rightarrow> URL \<Rightarrow> headers \<Rightarrow> response option" where
  "modified bufs url hs =
     Some \<lparr>status = 200,
           rsp_headers = [(''Last-Modified'', ''Thu, 22 Oct 2015 09:00:00 GMT'')],
           body = Some \<lparr>chunks = bufs, broken = False\<rparr>\<rparr>"

definition sized_server :: "string \<Rightarrow> bytes list \<Rightarrow> URL \<Rightarrow> headers \<Rightarrow> response option" where
  "sized_server len bufs url hs =
     Some \<lparr>status = 200, rsp_headers = [(''Content-Length'', len)],
           body = Some \<lparr>chunks = bufs, broken = False\<rparr>\<rparr>"

definition broken_server :: "URL \<Rightarrow> headers \<Rightarrow> response option" where
  "broken_server url hs =
     Some \<lparr>status = 200,
           rsp_headers = [(''Last-Modified'', ''Thu, 22 Oct 2015 09:00:00 GMT'')],
           body = Some \<lparr>chunks = [''pay''], broken = True\<rparr>\<rparr>"

text \<open>
  A URL whose payload is itself called \<^verbatim>\<open>mtime\<close>, \<^verbatim>\<open>https://example.com/mtime\<close>, and
  the cache an earlier download of it has left.
\<close>

definition mtime_url :: URL where
  "mtime_url = \<lparr>scheme = ''https'', hostname = ''example.com'', port = [],
                 pathname = ''/mtime'', query = None\<rparr>"

definition mtime_opts :: DownloadOptions where
  "mtime_opts = \<lparr>src = mtime_url, dst = None, headers = [], ephemeral = False\<rparr>"

definition mtime_key :: path where
  "mtime_key = [''tea'', ''www'', ''https'', ''example.com'', sha256 ''/mtime'']"

definition mtime_world :: world where
  "mtime_world =
     \<lparr>files = [mtime_key @ [''mtime''] \<mapsto> ''Wed, 21 Oct 2015 07:28:00 GMT''],
      dirs = set (prefixes mtime_key),
      trace = []\<rparr>"

section \<open>Lemmas\<close>

text \<open>
  Evaluating the hash in the kernel: the recursions on a numeral are unfolded one step at
  a time. The first test vector of the standard is the check on the model of the library.
\<close>

lemma replicate_step: "0 < n \<Longrightarrow> replicate n x = x # replicate (n - 1) x"
  by (cases n) simp_all

lemma schedule_step:
  "0 < n \<Longrightarrow> schedule n w =
     schedule (n - 1) (w @ [add32 (add32 (ssig1 (w ! (length w - 2))) (w ! (length w - 7)))
                                (add32 (ssig0 (w ! (length w - 15))) (w ! (length w - 16)))])"
  by (cases n) (simp_all add: Let_def)

lemma blocks_of_step: "0 < n \<Longrightarrow> blocks_of n ws = take 16 ws # blocks_of (n - 1) (drop 16 ws)"
  by (cases n) simp_all

lemmas sha_eval =
  sha256_def pad_def be_bytes_def compress_def K256_def H256_def
  hex_word_def hex_digit_def rotr_def shr_def not32_def add32_def
  ch_def maj_def bsig0_def bsig1_def ssig0_def ssig1_def upt_rec
  replicate_step schedule_step blocks_of_step

lemma sha256_abc:
  "sha256 ''abc'' = ''ba7816bf8f01cfea414140de5dae2223b00361a396177a9cb410ff61f20015ad''"
  by (simp add: sha_eval)

lemma sha256_example_inputs: "sha256 ''/a/b.tar.gz??v=2'' \<noteq> sha256 ''/a/b.tar.gz?v=2''"
  by (simp add: sha_eval)

lemma sha256_payload_date: "sha256 ''payload'' \<noteq> sha256 ''Thu, 22 Oct 2015 09:00:00 GMT''"
  by (simp add: sha_eval)

lemma mkpath_result:
  "mkpath p w = (r, w') \<Longrightarrow>
     files w' = files w \<and> trace w' = trace w \<and> world.more w' = world.more w \<and> dirs w \<subseteq> dirs w'"
  by (auto simp: mkpath_def split: if_splits)

lemma mkpath_Inr:
  "mkpath p w = (Inr q, w') \<Longrightarrow> q = p \<and> w' = w\<lparr>dirs := dirs w \<union> set (prefixes p)\<rparr>"
  by (auto simp: mkpath_def split: if_splits)

lemma mkpath_Inl: "mkpath p w = (Inl err, w') \<Longrightarrow> w' = w \<and> err = IO_error"
  by (auto simp: mkpath_def split: if_splits)

lemma mkpath_again:
  "set (prefixes p) \<subseteq> dirs w \<Longrightarrow> mkpath p w = (Inr p, w)"
proof -
  assume a: "set (prefixes p) \<subseteq> dirs w"
  then have "dirs w \<union> set (prefixes p) = dirs w" by auto
  moreover from a have "\<not> list_ex (\<lambda>q. q \<notin> dirs w \<and> isFile w q) (prefixes p)"
    by (auto simp: list_ex_iff)
  ultimately show ?thesis by (simp add: mkpath_def)
qed

lemma hash_key_result:
  "hash_key e url w = (r, w') \<Longrightarrow>
     files w' = files w \<and> trace w' = trace w \<and> world.more w' = world.more w \<and> dirs w \<subseteq> dirs w'"
  unfolding hash_key_def by (rule mkpath_result)

lemma hash_key_Inr:
  "hash_key e url w = (Inr k, w') \<Longrightarrow>
     k = cache_key e url \<and> w' = w\<lparr>dirs := dirs w \<union> set (prefixes (cache_key e url))\<rparr>"
  unfolding hash_key_def by (rule mkpath_Inr)

lemma mtime_entry_result:
  "mtime_entry e url w = (r, w') \<Longrightarrow>
     files w' = files w \<and> trace w' = trace w \<and> world.more w' = world.more w \<and> dirs w \<subseteq> dirs w'"
  by (auto simp: mtime_entry_def split: prod.splits sum.splits dest: hash_key_result)

lemma mtime_entry_Inr:
  "mtime_entry e url w = (Inr m, w') \<Longrightarrow>
     m = marker e url \<and> w' = w\<lparr>dirs := dirs w \<union> set (prefixes (cache_key e url))\<rparr>"
  by (auto simp: mtime_entry_def marker_def split: prod.splits sum.splits dest: hash_key_Inr)

lemma default_dst_result:
  "default_dst e opts w = (r, w') \<Longrightarrow>
     files w' = files w \<and> trace w' = trace w \<and> world.more w' = world.more w \<and> dirs w \<subseteq> dirs w'"
  by (auto simp: default_dst_def split: option.splits prod.splits sum.splits dest: hash_key_result)

lemma default_dst_Inr:
  "default_dst e opts w = (Inr d, w') \<Longrightarrow> d = destination e opts"
  by (auto simp: default_dst_def destination_def split: option.splits prod.splits sum.splits
      dest: hash_key_Inr)

lemma conditional_result:
  "conditional e opts d w = (r, w') \<Longrightarrow>
     files w' = files w \<and> world.more w' = world.more w \<and> dirs w \<subseteq> dirs w'"
  by (auto simp: conditional_def emit_def split: if_splits option.splits prod.splits sum.splits
      dest!: mtime_entry_result)

lemma conditional_Inr:
  "conditional e opts d w = (Inr hs, w') \<Longrightarrow>
     hs = (if ephemeral opts then headers opts
           else case (if isFile w (marker e (src opts)) \<and> isReadableFile w d
                      then files w (marker e (src opts)) else None) of
                  None \<Rightarrow> headers opts
                | Some text \<Rightarrow> AList.update ''If-Modified-Since'' text (headers opts))
     \<and> (\<exists>m. trace w' = trace w @ [Log m])"
  apply (simp add: conditional_def emit_def split: if_splits option.splits prod.splits sum.splits)
  apply (auto simp: isFile_def isReadableFile_def dest!: mtime_entry_Inr)
  done

lemma conditional_Inl:
  "conditional e opts d w = (Inl err, w') \<Longrightarrow>
     trace w' = trace w \<and> files w' = files w \<and> world.more w' = world.more w"
  by (auto simp: conditional_def emit_def split: if_splits option.splits prod.splits sum.splits
      dest!: mtime_entry_result)

lemma internal_request_Inr:
  assumes "internal_request e opts w = (Inr (d, hs), w1)"
  shows "d = destination e opts" and "hs = request_headers e opts w"
    and "files w1 = files w" and "world.more w1 = world.more w" and "dirs w \<subseteq> dirs w1"
    and "\<exists>m. trace w1 = trace w @ [Log m]" and "protocol (src opts) \<noteq> ''file:''"
proof -
  from assms obtain w0 hs0 where
    a: "default_dst e opts w = (Inr d, w0)" and p: "protocol (src opts) \<noteq> ''file:''"
    and c: "conditional e opts d w0 = (Inr hs0, w1)" and h: "hs = authorization e (src opts) hs0"
    by (auto simp: internal_request_def split: prod.splits sum.splits if_splits)
  from a show d: "d = destination e opts" by (rule default_dst_Inr)
  from a have f0: "files w0 = files w" "world.more w0 = world.more w" "dirs w \<subseteq> dirs w0"
    "trace w0 = trace w"
    by (auto dest!: default_dst_result)
  from c have f1: "files w1 = files w0" "world.more w1 = world.more w0" "dirs w0 \<subseteq> dirs w1"
    by (auto dest!: conditional_result)
  from f0 f1 show "files w1 = files w" "world.more w1 = world.more w" "dirs w \<subseteq> dirs w1"
    by auto
  from c f0 show "\<exists>m. trace w1 = trace w @ [Log m]"
    by (auto dest!: conditional_Inr)
  from p show "protocol (src opts) \<noteq> ''file:''" .
  from c have "hs0 = (if ephemeral opts then headers opts
           else case (if isFile w0 (marker e (src opts)) \<and> isReadableFile w0 d
                      then files w0 (marker e (src opts)) else None) of
                  None \<Rightarrow> headers opts
                | Some text \<Rightarrow> AList.update ''If-Modified-Since'' text (headers opts))"
    by (auto dest!: conditional_Inr)
  with h d f0 show "hs = request_headers e opts w"
    by (simp add: request_headers_def baseline_def isFile_def isReadableFile_def)
qed

lemma internal_request_Inl:
  "internal_request e opts w = (Inl err, w1) \<Longrightarrow>
     files w1 = files w \<and> world.more w1 = world.more w \<and> trace w1 = trace w"
  by (auto simp: internal_request_def split: prod.splits sum.splits if_splits
      dest!: default_dst_result conditional_Inl)

text \<open>The request phase does not look at the extension of the world.\<close>

lemma mkpath_sha_init:
  "mkpath p (sha_init w) = (case mkpath p w of (r, w') \<Rightarrow> (r, sha_init w'))"
  by (simp add: mkpath_def sha_init_def isFile_def)

lemma mtime_entry_sha_init:
  "mtime_entry e url (sha_init w) = (case mtime_entry e url w of (r, w') \<Rightarrow> (r, sha_init w'))"
  by (simp add: mtime_entry_def hash_key_def mkpath_sha_init split: prod.splits sum.splits)

lemma default_dst_sha_init:
  "default_dst e opts (sha_init w) = (case default_dst e opts w of (r, w') \<Rightarrow> (r, sha_init w'))"
  by (simp add: default_dst_def hash_key_def mkpath_sha_init split: prod.splits sum.splits option.splits)

lemma emit_sha_init: "emit ev (sha_init w) = sha_init (emit ev w)"
  by (simp add: emit_def sha_init_def)

lemma files_sha_init [simp]: "files (sha_init w) = files w"
  and dirs_sha_init [simp]: "dirs (sha_init w) = dirs w"
  and trace_sha_init [simp]: "trace (sha_init w) = trace w"
  and digest_sha_init [simp]: "digest (sha_init w) = []"
  and run_sha_init [simp]: "run (sha_init w) = False"
  by (simp_all add: sha_init_def)

lemma conditional_sha_init:
  "conditional e opts d (sha_init w) = (case conditional e opts d w of (r, w') \<Rightarrow> (r, sha_init w'))"
  by (simp add: conditional_def mtime_entry_sha_init emit_sha_init isFile_def isReadableFile_def
      split: prod.splits sum.splits option.splits)

lemma internal_request_sha_init:
  "internal_request e opts (sha_init w) =
     (case internal_request e opts w of (r, w') \<Rightarrow> (r, sha_init w'))"
  by (simp add: internal_request_def default_dst_sha_init conditional_sha_init
      split: prod.splits sum.splits)

lemma segments_no_slash: "CHR ''/'' \<notin> set s \<Longrightarrow> segments s = [s]"
  by (induction s) auto

lemma components_single: "s \<noteq> [] \<Longrightarrow> CHR ''/'' \<notin> set s \<Longrightarrow> components s = [s]"
  by (simp add: components_def segments_no_slash)

lemma segments_Cons: "\<exists>x xs. segments s = x # xs"
  by (induction s) (auto split: list.splits)

lemma segments_slash_free: "x \<in> set (segments s) \<Longrightarrow> CHR ''/'' \<notin> set x"
proof (induction s arbitrary: x)
  case Nil
  then show ?case by simp
next
  case (Cons c cs)
  obtain y ys where y: "segments cs = y # ys" using segments_Cons by blast
  with Cons show ?case by (auto split: if_splits)
qed

lemma components_member: "x \<in> set (components s) \<Longrightarrow> x \<noteq> [] \<and> CHR ''/'' \<notin> set x"
  by (auto simp: components_def dest: segments_slash_free)

lemma components_basename:
  "components (basename (components s)) = (if components s = [] then [] else [last (components s)])"
proof (cases "components s = []")
  case True
  then show ?thesis by (simp add: basename_def components_def)
next
  case False
  then have "last (components s) \<in> set (components s)" by simp
  then have "last (components s) \<noteq> [] \<and> CHR ''/'' \<notin> set (last (components s))"
    by (rule components_member)
  with False show ?thesis by (simp add: basename_def components_single)
qed

lemma hex_digit_not_slash: "hex_digit n \<noteq> CHR ''/''"
proof -
  have "n mod 16 < length ''0123456789abcdef''" by simp
  then have "''0123456789abcdef'' ! (n mod 16) \<in> set ''0123456789abcdef''"
    by (rule nth_mem)
  then show ?thesis unfolding hex_digit_def by auto
qed

lemma hex_word_not_slash: "CHR ''/'' \<notin> set (hex_word w)"
  using hex_digit_not_slash by (fastforce simp: hex_word_def)

lemma hex_word_not_Nil: "hex_word w \<noteq> []"
  by (simp add: hex_word_def)

lemma sha256_not_slash: "CHR ''/'' \<notin> set (sha256 m)"
  by (auto simp: sha256_def hex_word_not_slash)

lemma state_words_not_Nil: "state_words s \<noteq> []"
  by (cases s rule: state_words.cases) simp

lemma sha256_not_Nil: "sha256 m \<noteq> []"
proof -
  obtain x xs where
    "state_words (foldl compress H256
       (blocks_of (length (words_of (pad m)) div 16) (words_of (pad m)))) = x # xs"
    using state_words_not_Nil by (meson neq_Nil_conv)
  then show ?thesis by (simp add: sha256_def hex_word_not_Nil)
qed

lemma components_sha256 [simp]: "components (sha256 m) = [sha256 m]"
  by (simp add: components_single sha256_not_slash sha256_not_Nil)

lemma segments_sha256 [simp]: "segments (sha256 m) = [sha256 m]"
  by (simp add: segments_no_slash sha256_not_slash)

lemma sha256_Nil_iff [simp]: "sha256 m = [] \<longleftrightarrow> False" "[] = sha256 m \<longleftrightarrow> False"
  using sha256_not_Nil [of m] by auto

lemmas model_defs =
  protocol_def host_def search_def components_def join_def basename_def parent_def url_path_def
  emit_def isFile_def isReadableFile_def mkpath_def open_truncate_def write_chunk_def write_text_def
  header_get_def falsy_def is_space_def digit_value_def parseInt_def chuzzle_def
  formatted_def hash_def cache_key_def hash_key_def mtime_entry_def default_dst_def conditional_def
  github_host_def authorization_def internal_request_def content_length_def write_mtime_def
  status_200_def internal_def
  copy_def download_def hash_write_def sha_body_def sha_init_def world_of_def download_with_sha_def
  list_ex_iff Let_def

lemmas example_defs =
  example_url_def example_env_def example_opts_def example_key_def cached_world_def
  not_modified_def server_error_def fresh_world_def ephemeral_opts_def caller_conditional_opts_def
  modified_def sized_server_def broken_server_def mtime_url_def mtime_opts_def mtime_key_def
  mtime_world_def

lemma percents_append [simp]: "percents (xs @ ys) = percents xs @ percents ys"
  by (simp add: percents_def)

lemma percents_simps [simp]:
  "percents [] = []"
  "percents (Log (Percent p) # evs) = p # percents evs"
  "percents (Log Querying # evs) = percents evs"
  "percents (Log (Downloading sz) # evs) = percents evs"
  "percents (Log Cache_hit # evs) = percents evs"
  "percents (Log Verifying # evs) = percents evs"
  "percents (Fetch u hs # evs) = percents evs"
  "percents (Truncate f # evs) = percents evs"
  "percents (Write f buf # evs) = percents evs"
  "percents (Write_text f text # evs) = percents evs"
  by (simp_all add: percents_def)

lemma write_chunks:
  "files (foldl (\<lambda>w' buf. write_chunk f buf w') w bufs) =
     (if bufs = [] then files w
      else (files w)(f \<mapsto> (case files w f of None \<Rightarrow> [] | Some old \<Rightarrow> old) @ concat bufs))"
  "dirs (foldl (\<lambda>w' buf. write_chunk f buf w') w bufs) = dirs w"
  "world.more (foldl (\<lambda>w' buf. write_chunk f buf w') w bufs) = world.more w"
  "trace (foldl (\<lambda>w' buf. write_chunk f buf w') w bufs) = trace w @ map (Write f) bufs"
  by (induction bufs arbitrary: w; simp add: write_chunk_def emit_def split: option.splits)+

lemma body_spec_copy: "body_spec (\<lambda>reader f sz. copy reader f)"
  by (auto simp: body_spec_def copy_def write_chunks streamed_def)

lemma tee_state:
  "dirs (snd (tee e f sz order cs ds ns)) = dirs (snd ns)"
  "run (snd (tee e f sz order cs ds ns)) = run (snd ns)"
  "digest (snd (tee e f sz order cs ds ns)) = digest (snd ns) @ concat ds"
  by (induction e f sz order cs ds ns rule: tee.induct;
      simp add: write_chunk_def hash_write_def emit_def Let_def split: prod.splits option.splits)+

lemma tee_files:
  "files (snd ns) f = Some old \<Longrightarrow>
     files (snd (tee e f sz order cs ds ns)) = (files (snd ns))(f \<mapsto> old @ concat cs)"
  by (induction e f sz order cs ds ns arbitrary: old rule: tee.induct)
     (auto simp: write_chunk_def hash_write_def emit_def Let_def split: prod.splits option.splits)

lemma tee_percents:
  "percents (trace (snd (tee e f sz order cs ds ns))) =
     percents (trace (snd ns)) @ progress e sz (fst ns) ds"
  by (induction e f sz order cs ds ns rule: tee.induct)
     (auto simp: write_chunk_def hash_write_def emit_def Let_def progress_def pct_def
           split: prod.splits option.splits)

lemma tee_trace:
  "\<exists>evs. trace (snd (tee e f sz order cs ds ns)) = trace (snd ns) @ evs
         \<and> (\<forall>ev \<in> set evs. streamed f ev)"
proof (induction e f sz order cs ds ns rule: tee.induct)
  case (1 e f sz order ns)
  then show ?case by simp
next
  case (2 e f sz order c cs ns)
  then show ?case by (auto simp: write_chunk_def emit_def streamed_def)
next
  case (3 e f sz order d ds ns)
  then show ?case
    by (cases ns) (auto simp: hash_write_def emit_def streamed_def Let_def split: option.splits)
next
  case (4 e f sz c cs d ds ns)
  then show ?case by (auto simp: write_chunk_def emit_def streamed_def)
next
  case (5 e f sz order c cs d ds ns)
  then show ?case by (auto simp: write_chunk_def emit_def streamed_def)
next
  case (6 e f sz order c cs d ds ns)
  then show ?case
    by (cases ns) (auto simp: hash_write_def emit_def streamed_def Let_def split: option.splits)
qed

lemma body_spec_sha_body: "body_spec (sha_body e)"
  unfolding body_spec_def
proof (intro allI impI)
  fix reader f sz and s :: sha_world and r s'
  assume a: "sha_body e reader f sz s = (r, s')"
  let ?t = "tee e f sz (tee_order e) (chunks reader) (chunks reader) (0, s\<lparr>run := True\<rparr>)"
  from a have r: "r = (if broken reader then Inl Transport_error else Inr ())" and s': "s' = snd ?t"
    by (auto simp: sha_body_def)
  have "\<exists>evs. trace (snd ?t) = trace (snd (0::nat, s\<lparr>run := True\<rparr>)) @ evs
           \<and> (\<forall>ev \<in> set evs. streamed f ev)"
    by (rule tee_trace)
  moreover have "\<forall>old. files s f = Some old \<longrightarrow>
      files (snd ?t) = (files s)(f \<mapsto> old @ concat (chunks reader))"
    using tee_files [of "(0, s\<lparr>run := True\<rparr>)" f _ e sz "tee_order e" "chunks reader" "chunks reader"]
    by simp
  ultimately show "dirs s' = dirs s \<and> (r = Inr () \<longleftrightarrow> \<not> broken reader) \<and>
        (\<forall>old. files s f = Some old \<longrightarrow> files s' = (files s)(f \<mapsto> old @ concat (chunks reader))) \<and>
        (\<exists>evs. trace s' = trace s @ evs \<and> (\<forall>ev \<in> set evs. streamed f ev))"
    using r s' by (simp add: tee_state)
qed

lemma sha_body_state:
  "sha_body e reader f sz s = (r, s') \<Longrightarrow>
     run s' \<and> digest s' = digest s @ concat (chunks reader)
     \<and> percents (trace s') = percents (trace s) @ progress e sz 0 (chunks reader)"
  by (auto simp: sha_body_def tee_state tee_percents)

lemma open_truncate_Inr:
  "open_truncate p w = (Inr u, w') \<Longrightarrow>
     p \<noteq> [] \<and> p \<notin> dirs w \<and> parent p \<in> dirs w \<and> files w' = (files w)(p \<mapsto> [])
     \<and> dirs w' = dirs w \<and> trace w' = trace w @ [Truncate p] \<and> world.more w' = world.more w"
  by (auto simp: open_truncate_def emit_def split: if_splits)

lemma open_truncate_Inl: "open_truncate p w = (Inl err, w') \<Longrightarrow> w' = w"
  by (auto simp: open_truncate_def split: if_splits)

lemma write_text_Inr:
  "write_text p text w = (Inr u, w') \<Longrightarrow>
     files w' = (files w)(p \<mapsto> text) \<and> dirs w' = dirs w
     \<and> trace w' = trace w @ [Write_text p text] \<and> world.more w' = world.more w"
  by (auto simp: write_text_def emit_def split: if_splits)

lemma write_text_Inl: "write_text p text w = (Inl err, w') \<Longrightarrow> w' = w"
  by (auto simp: write_text_def split: if_splits)

lemma body_specD:
  assumes "body_spec bodyf" and "bodyf reader f sz w = (r, w')"
  shows "dirs w' = dirs w" and "r = Inr () \<longleftrightarrow> \<not> broken reader"
    and "files w f = Some old \<Longrightarrow> files w' = (files w)(f \<mapsto> old @ concat (chunks reader))"
    and "\<exists>evs. trace w' = trace w @ evs \<and> (\<forall>ev \<in> set evs. streamed f ev)"
  using assms unfolding body_spec_def by blast+

lemma streamed_not_marker_write: "streamed f ev \<Longrightarrow> \<not> marker_write ev"
  by (auto simp: streamed_def marker_write_def split: event.splits message.splits)

lemma marker_write_simps [simp]:
  "\<not> marker_write (Log m)" "\<not> marker_write (Truncate p)" "\<not> marker_write (Write p buf)"
  "\<not> marker_write (Fetch url hs)" "marker_write (Write_text p text)"
  by (simp_all add: marker_write_def)

lemma write_mtime_Inr:
  "write_mtime e url rsp w = (Inr u, w') \<Longrightarrow>
     files w' = (case last_modified rsp of None \<Rightarrow> files w | Some text \<Rightarrow> (files w)(marker e url \<mapsto> text))
     \<and> trace w' = trace w @ (case last_modified rsp of None \<Rightarrow> []
                                | Some text \<Rightarrow> [Write_text (marker e url) text])
     \<and> world.more w' = world.more w"
  by (auto simp: write_mtime_def last_modified_def split: option.splits if_splits prod.splits sum.splits
      dest!: mtime_entry_Inr write_text_Inr)

lemma write_mtime_Inl:
  "write_mtime e url rsp w = (Inl err, w') \<Longrightarrow>
     files w' = files w \<and> trace w' = trace w \<and> world.more w' = world.more w"
  by (auto simp: write_mtime_def split: option.splits if_splits prod.splits sum.splits
      dest!: mtime_entry_result write_text_Inl)

lemma status_200_cases:
  assumes "status_200 e opts d rsp bodyf w = (r, w')"
  obtains
    (panic) "body rsp = None" "r = Inl Panic" "w' = emit (Log (Downloading (content_length rsp))) w"
  | (no_open) reader err where "body rsp = Some reader" "r = Inl err"
      "open_truncate d (emit (Log (Downloading (content_length rsp))) w) = (Inl err, w')"
  | (no_parent) reader f w2 err where "body rsp = Some reader" "r = Inl err"
      "open_truncate d (emit (Log (Downloading (content_length rsp))) w) = (Inr f, w2)"
      "mkpath (parent d) w2 = (Inl err, w')"
  | (body_failed) reader f w2 p w3 err where "body rsp = Some reader" "r = Inl err"
      "open_truncate d (emit (Log (Downloading (content_length rsp))) w) = (Inr f, w2)"
      "mkpath (parent d) w2 = (Inr p, w3)"
      "bodyf reader d (content_length rsp) w3 = (Inl err, w')"
  | (body_done) reader f w2 p w3 u w4 where "body rsp = Some reader"
      "open_truncate d (emit (Log (Downloading (content_length rsp))) w) = (Inr f, w2)"
      "mkpath (parent d) w2 = (Inr p, w3)"
      "bodyf reader d (content_length rsp) w3 = (Inr u, w4)"
      "write_mtime e (src opts) rsp w4 = (r, w')"
  using assms
  by (auto simp: status_200_def Let_def split: option.splits prod.splits sum.splits)

text \<open>What the body leaves behind once the file is open.\<close>

lemma body_after_open:
  assumes spec: "body_spec bodyf"
    and o: "open_truncate d (emit (Log (Downloading sz)) w) = (Inr f, w2)"
    and m: "mkpath (parent d) w2 = (Inr p, w3)"
    and c: "bodyf reader d sz w3 = (rb, w4)"
  shows "files w4 = (files w)(d \<mapsto> concat (chunks reader))"
    and "\<exists>evs. trace w4 = trace w @ [Log (Downloading sz), Truncate d] @ evs
               \<and> (\<forall>ev \<in> set evs. streamed d ev)"
    and "rb = Inr () \<longleftrightarrow> \<not> broken reader"
    and "d \<notin> dirs w"
proof -
  from o have o': "d \<notin> dirs w" "files w2 = (files w)(d \<mapsto> [])"
    "trace w2 = trace w @ [Log (Downloading sz), Truncate d]"
    by (auto simp: emit_def dest!: open_truncate_Inr)
  from m have m': "files w3 = files w2" "trace w3 = trace w2"
    by (auto dest!: mkpath_result)
  from m' o' have f3: "files w3 d = Some []" by simp
  from body_specD(3) [OF spec c f3] m' o'
  show "files w4 = (files w)(d \<mapsto> concat (chunks reader))" by simp
  from body_specD(4) [OF spec c] m' o'
  show "\<exists>evs. trace w4 = trace w @ [Log (Downloading sz), Truncate d] @ evs
               \<and> (\<forall>ev \<in> set evs. streamed d ev)" by simp
  from body_specD(2) [OF spec c] show "rb = Inr () \<longleftrightarrow> \<not> broken reader" .
  from o' show "d \<notin> dirs w" by simp
qed

lemma status_200_Inr:
  assumes spec: "body_spec bodyf"
    and run: "status_200 e opts d rsp bodyf w = (Inr u, w')"
  shows "\<exists>reader evs.
           body rsp = Some reader \<and> \<not> broken reader \<and> d \<notin> dirs w
           \<and> files w' =
               (case last_modified rsp of
                  None \<Rightarrow> (files w)(d \<mapsto> concat (chunks reader))
                | Some text \<Rightarrow> (files w)(d \<mapsto> concat (chunks reader), marker e (src opts) \<mapsto> text))
           \<and> trace w' =
               trace w @ [Log (Downloading (content_length rsp)), Truncate d] @ evs
               @ (case last_modified rsp of
                    None \<Rightarrow> []
                  | Some text \<Rightarrow> [Write_text (marker e (src opts)) text])
           \<and> (\<forall>ev \<in> set evs. streamed d ev)"
  using run
proof (cases rule: status_200_cases)
  case (body_done reader f w2 p w3 u' w4)
  note b = body_after_open [OF spec body_done(2) body_done(3) body_done(4)]
  from b(2) obtain evs where
    t4: "trace w4 = trace w @ [Log (Downloading (content_length rsp)), Truncate d] @ evs"
    and st: "\<forall>ev \<in> set evs. streamed d ev" by blast
  from body_done(5) have
    "files w' = (case last_modified rsp of None \<Rightarrow> files w4
                 | Some text \<Rightarrow> (files w4)(marker e (src opts) \<mapsto> text))"
    "trace w' = trace w4 @ (case last_modified rsp of None \<Rightarrow> []
                            | Some text \<Rightarrow> [Write_text (marker e (src opts)) text])"
    by (auto dest!: write_mtime_Inr)
  with b(1) b(3) b(4) t4 st body_done(1) show ?thesis
    by (intro exI [of _ reader] exI [of _ evs]) (simp split: option.splits)
qed simp_all

lemma status_200_Inl:
  assumes spec: "body_spec bodyf"
    and run: "status_200 e opts d rsp bodyf w = (Inl err, w')"
  shows "(\<forall>p. p \<noteq> d \<longrightarrow> files w' p = files w p)
         \<and> (\<exists>evs. trace w' = trace w @ evs \<and> (\<forall>ev \<in> set evs. \<not> marker_write ev))"
  using run
proof (cases rule: status_200_cases)
  case panic
  then show ?thesis by (simp add: emit_def marker_write_def)
next
  case (no_open reader err)
  then show ?thesis by (auto simp: emit_def marker_write_def dest!: open_truncate_Inl)
next
  case (no_parent reader f w2 err)
  then show ?thesis
    by (auto simp: emit_def marker_write_def dest!: open_truncate_Inr mkpath_Inl)
next
  case (body_failed reader f w2 p w3 err')
  note b = body_after_open [OF spec body_failed(3) body_failed(4) body_failed(5)]
  from b(2) obtain evs where
    t4: "trace w' = trace w @ [Log (Downloading (content_length rsp)), Truncate d] @ evs"
    and st: "\<forall>ev \<in> set evs. streamed d ev" by blast
  have "\<forall>ev \<in> set ([Log (Downloading (content_length rsp)), Truncate d] @ evs). \<not> marker_write ev"
    using st by (auto dest: streamed_not_marker_write)
  with t4 b(1) show ?thesis by auto
next
  case (body_done reader f w2 p w3 u w4)
  note b = body_after_open [OF spec body_done(2) body_done(3) body_done(4)]
  from b(2) obtain evs where
    t4: "trace w4 = trace w @ [Log (Downloading (content_length rsp)), Truncate d] @ evs"
    and st: "\<forall>ev \<in> set evs. streamed d ev" by blast
  have nm: "\<forall>ev \<in> set ([Log (Downloading (content_length rsp)), Truncate d] @ evs). \<not> marker_write ev"
    using st by (auto dest: streamed_not_marker_write)
  from body_done(5) have "files w' = files w4" "trace w' = trace w4"
    by (auto dest!: write_mtime_Inl)
  with t4 b(1) nm show ?thesis by auto
qed

lemma internal_200:
  assumes "internal_request e opts w = (Inr (d, hs), w1)"
    and "fetch e (src opts) hs = Some rsp" and "status rsp = 200"
  shows "internal e opts bodyf w =
           (case status_200 e opts d rsp bodyf (emit (Fetch (src opts) hs) w1) of
              (Inl err, w3) \<Rightarrow> (Inl err, w3)
            | (Inr u, w3) \<Rightarrow> (Inr d, w3))"
  using assms by (simp add: internal_def Let_def)

lemma internal_304:
  assumes "internal_request e opts w = (Inr (d, hs), w1)"
    and "fetch e (src opts) hs = Some rsp" and "status rsp = 304"
  shows "internal e opts bodyf w = (Inr d, emit (Log Cache_hit) (emit (Fetch (src opts) hs) w1))"
  using assms by (simp add: internal_def Let_def)

lemma internal_other:
  assumes "internal_request e opts w = (Inr (d, hs), w1)"
    and "fetch e (src opts) hs = Some rsp" and "status rsp \<noteq> 200" and "status rsp \<noteq> 304"
  shows "internal e opts bodyf w =
           (if numpty e \<and> isFile w d then Inr d
            else Inl (Unexpected_status (status rsp) (src opts)),
            emit (Fetch (src opts) hs) w1)"
proof -
  from internal_request_Inr(3) [OF assms(1)]
  have "isFile (emit (Fetch (src opts) hs) w1) d = isFile w d"
    by (simp add: isFile_def emit_def)
  with assms show ?thesis
    by (simp add: internal_def Let_def)
qed

lemma more_sha_world:
  "world.more (s' :: sha_world) = world.more s \<Longrightarrow> digest s' = digest s \<and> run s' = run s"
  by (cases s, cases s') simp

lemma map_of_authorization:
  "map_of (authorization e url hs) ''If-Modified-Since'' = map_of hs ''If-Modified-Since''"
  by (simp add: authorization_def update_conv' split: option.splits)

lemma internal_request_key:
  assumes "internal_request e opts w = (Inr (d, hs), w1)" and "dst opts = None"
  shows "cache_key e (src opts) \<in> dirs w1"
proof -
  from assms obtain w0 hs0 where
    a: "default_dst e opts w = (Inr d, w0)" and c: "conditional e opts d w0 = (Inr hs0, w1)"
    by (auto simp: internal_request_def split: prod.splits sum.splits if_splits)
  from a assms(2) have "cache_key e (src opts) \<in> dirs w0"
    by (auto simp: default_dst_def split: prod.splits sum.splits dest!: hash_key_Inr)
  with c show ?thesis by (auto dest!: conditional_result)
qed

lemma default_destination_inside:
  assumes "dst opts = None" and "destination e opts \<noteq> cache_key e (src opts)"
  shows "parent (destination e opts) = cache_key e (src opts)"
  using assms
  by (simp add: destination_def join_def parent_def url_path_def components_basename split: if_splits)

lemma baseline_after:
  assumes "files w' (marker e (src opts)) = Some text" and "files w' (destination e opts) \<noteq> None"
    and "www e2 = www e" and "src opts2 = src opts" and "dst opts2 = dst opts"
  shows "baseline e2 opts2 w' = Some text"
proof -
  from assms(3) have k: "cache_key e2 (src opts) = cache_key e (src opts)"
    by (simp add: cache_key_def)
  then have "marker e2 (src opts2) = marker e (src opts)"
    and "destination e2 opts2 = destination e opts"
    by (simp_all add: marker_def destination_def assms(4,5) split: option.splits)
  with assms(1,2) show ?thesis
    by (simp add: baseline_def isFile_def isReadableFile_def)
qed

lemma conditional_percents:
  "conditional e opts d w = (r, w') \<Longrightarrow> percents (trace w') = percents (trace w)"
  by (auto simp: conditional_def emit_def split: if_splits option.splits prod.splits sum.splits
      dest!: mtime_entry_result)

lemma internal_request_percents:
  "internal_request e opts w = (r, w1) \<Longrightarrow> percents (trace w1) = percents (trace w)"
  by (auto simp: internal_request_def split: prod.splits sum.splits if_splits
      dest!: default_dst_result conditional_percents)

text \<open>
  Where \<^verbatim>\<open>download_with_sha\<close> returns after a 200 response: the body callback has run
  on an empty digest, and the marker step has ended the call.
\<close>

lemma sha_200_Inr:
  assumes "internal_request e opts w = (Inr (d, hs), w1)"
    and "fetch e (src opts) hs = Some rsp" and "status rsp = 200"
    and "download_with_sha e opts w = (Inr (p, sha), w')"
  shows "\<exists>reader s.
           body rsp = Some reader \<and> \<not> broken reader \<and> p = d
           \<and> sha = sha256 (concat (chunks reader)) \<and> w' = world_of s
           \<and> status_200 e opts d rsp (sha_body e) (emit (Fetch (src opts) hs) (sha_init w1))
               = (Inr (), s)
           \<and> percents (trace s)
               = percents (trace w) @ progress e (content_length rsp) 0 (chunks reader)"
proof -
  let ?w2 = "emit (Fetch (src opts) hs) (sha_init w1)"
  from assms(1) have r: "internal_request e opts (sha_init w) = (Inr (d, hs), sha_init w1)"
    by (simp add: internal_request_sha_init)
  note i = internal_200 [OF r assms(2,3), of "sha_body e"]
  from assms(4) i obtain s where
    st: "status_200 e opts d rsp (sha_body e) ?w2 = (Inr (), s)"
    and it: "internal e opts (sha_body e) (sha_init w) = (Inr d, s)"
    by (auto simp: download_with_sha_def split: prod.splits sum.splits)
  from st show ?thesis
  proof (cases rule: status_200_cases)
    case (body_done reader f w2 q w3 u w4)
    from body_done(2) have o: "world.more w2 = world.more ?w2" "percents (trace w2) = percents (trace ?w2)"
      by (auto simp: emit_def dest!: open_truncate_Inr)
    from body_done(3) have m: "world.more w3 = world.more w2" "trace w3 = trace w2"
      by (auto dest!: mkpath_result)
    have "world.more ?w2 = world.more (sha_init w1)" by (simp add: emit_def)
    with o m have "world.more w3 = world.more (sha_init w1)" by simp
    then have d3: "digest w3 = []" using more_sha_world [of w3 "sha_init w1"] by simp
    from sha_body_state [OF body_done(4)] d3 have
      b: "run w4" "digest w4 = concat (chunks reader)"
         "percents (trace w4) = percents (trace w3) @ progress e (content_length rsp) 0 (chunks reader)"
      by simp_all
    from body_specD(2) [OF body_spec_sha_body body_done(4)] have nb: "\<not> broken reader" by simp
    from body_done(5) have wm: "world.more s = world.more w4" "percents (trace s) = percents (trace w4)"
      by (auto dest!: write_mtime_Inr split: option.splits)
    from wm(1) b have rs: "run s" "digest s = concat (chunks reader)"
      using more_sha_world [of s w4] by simp_all
    have "percents (trace ?w2) = percents (trace w)"
      using internal_request_percents [OF assms(1)] by (simp add: emit_def)
    with o m b wm have pc: "percents (trace s)
          = percents (trace w) @ progress e (content_length rsp) 0 (chunks reader)"
      by simp
    from assms(4) it rs have "p = d" "sha = sha256 (concat (chunks reader))" "w' = world_of s"
      by (simp_all add: download_with_sha_def)
    with body_done(1) nb st pc show ?thesis by blast
  qed simp_all
qed

lemma sha_unrun:
  assumes "internal e opts (sha_body e) (sha_init w) = (Inr d, s)"
    and "run s = False" and "digest s = []" and "files s = files w"
    and "download_with_sha e opts w = (Inr (p, sha), w')"
  shows "p = d \<and> (\<exists>content. files w d = Some content \<and> sha = sha256 content) \<and> files w' = files w"
  using assms
  by (auto simp: download_with_sha_def emit_def world_of_def Let_def split: option.splits)










lemma formatted_no_query: "query url = None \<Longrightarrow> formatted url = pathname url"
  by (simp add: formatted_def search_def)

lemma formatted_query:
  "query url = Some q \<Longrightarrow> q \<noteq> [] \<Longrightarrow> formatted url = pathname url @ ''??'' @ q"
  by (simp add: formatted_def search_def)

text \<open>
  Outside the collision of the payload with the marker, the digest is that of the file
  that was written, whatever the order of the two consumers.
\<close>

lemma digest_matches_file:
  assumes "internal_request e opts w = (Inr (d, hs), w1)"
    and "fetch e (src opts) hs = Some rsp" and "status rsp = 200"
    and "download_with_sha e opts w = (Inr (p, sha), w')"
    and "last_modified rsp = None \<or> marker e (src opts) \<noteq> d"
  shows "\<exists>content. files w' p = Some content \<and> sha = sha256 content"
proof -
  from sha_200_Inr [OF assms(1,2,3,4)] obtain reader s where
    b: "body rsp = Some reader" and p: "p = d" and sha: "sha = sha256 (concat (chunks reader))"
    and w': "w' = world_of s"
    and st: "status_200 e opts d rsp (sha_body e) (emit (Fetch (src opts) hs) (sha_init w1))
               = (Inr (), s)"
    by blast
  from status_200_Inr [OF body_spec_sha_body st] b assms(5)
  have "files s d = Some (concat (chunks reader))"
    by (auto split: option.splits)
  with p sha w' show ?thesis by (simp add: world_of_def)
qed

text \<open>
  The marker is written last, after the chunks of the body, and only with a
  \<^verbatim>\<open>Last-Modified\<close> value; a call that fails writes no marker, and leaves the marker
  file alone unless the destination is the marker file itself.
\<close>

lemma marker_written_last:
  assumes "body_spec bodyf"
    and "internal_request e opts w = (Inr (d, hs), w1)"
    and "fetch e (src opts) hs = Some rsp" and "status rsp = 200"
    and "internal e opts bodyf w = (Inr p, w')"
  shows "\<exists>evs. trace w' =
           trace w1 @ [Fetch (src opts) hs, Log (Downloading (content_length rsp)), Truncate d]
           @ evs
           @ (case last_modified rsp of
                None \<Rightarrow> []
              | Some text \<Rightarrow> [Write_text (marker e (src opts)) text])
         \<and> (\<forall>ev \<in> set evs. streamed d ev)"
proof -
  from assms(5) internal_200 [OF assms(2,3,4), of bodyf] obtain u where
    "status_200 e opts d rsp bodyf (emit (Fetch (src opts) hs) w1) = (Inr u, w')"
    by (auto split: prod.splits sum.splits)
  from status_200_Inr [OF assms(1) this] show ?thesis
    by (auto simp: emit_def)
qed

lemma marker_kept_on_failure:
  assumes "body_spec bodyf"
    and "internal_request e opts w = (Inr (d, hs), w1)"
    and "fetch e (src opts) hs = Some rsp" and "status rsp = 200"
    and "internal e opts bodyf w = (Inl err, w')"
  shows "(marker e (src opts) \<noteq> d \<longrightarrow> files w' (marker e (src opts)) = files w (marker e (src opts)))
         \<and> (\<exists>evs. trace w' = trace w @ evs \<and> (\<forall>ev \<in> set evs. \<not> marker_write ev))"
proof -
  from assms(5) internal_200 [OF assms(2,3,4), of bodyf] have
    s: "status_200 e opts d rsp bodyf (emit (Fetch (src opts) hs) w1) = (Inl err, w')"
    by (auto split: prod.splits sum.splits)
  note r = internal_request_Inr(3,6) [OF assms(2)]
  from r(2) obtain m where m: "trace w1 = trace w @ [Log m]" by blast
  from status_200_Inl [OF assms(1) s] obtain evs where
    f: "\<forall>p. p \<noteq> d \<longrightarrow> files w' p = files (emit (Fetch (src opts) hs) w1) p"
    and t: "trace w' = trace (emit (Fetch (src opts) hs) w1) @ evs"
    and n: "\<forall>ev \<in> set evs. \<not> marker_write ev"
    by blast
  from t m have "trace w' = trace w @ ([Log m, Fetch (src opts) hs] @ evs)"
    by (simp add: emit_def)
  moreover from n have "\<forall>ev \<in> set ([Log m, Fetch (src opts) hs] @ evs). \<not> marker_write ev"
    by simp
  ultimately have "\<exists>evs. trace w' = trace w @ evs \<and> (\<forall>ev \<in> set evs. \<not> marker_write ev)"
    by blast
  with f r(1) show ?thesis by (simp add: emit_def)
qed

section \<open>The claims\<close>

text \<open>
  In the theorems below, \<open>internal_request e opts w = (Inr (d, hs), w1)\<close> says that the
  steps before \<^verbatim>\<open>fetch\<close> go through, with destination \<open>d\<close> and request headers
  \<open>hs\<close>, and \<open>fetch e (src opts) hs = Some rsp\<close> that the origin answers \<open>rsp\<close>.
\<close>

text \<open>
  C1. The claim: the cache key of \<^verbatim>\<open>https://example.com/a/b.tar.gz?v=2\<close> is
  \<^verbatim>\<open><root>/https/example.com/<hash("/a/b.tar.gz?v=2")>\<close>, and the body goes to
  \<^verbatim>\<open>b.tar.gz\<close> in that directory. The code at this URL: \<^verbatim>\<open>url.search\<close> already
  starts with the question mark that line 142 puts in front of it, so the string that is
  hashed is \<^verbatim>\<open>/a/b.tar.gz??v=2\<close>, and the key is not the claimed one; scheme, host and
  file name are as claimed. For a URL without a query the hashed string is the pathname
  (\<open>formatted_no_query\<close>); with a query it always has the doubled question mark
  (\<open>formatted_query\<close>).
\<close>

theorem hash_key_doubles_question_mark:
  "formatted example_url = ''/a/b.tar.gz??v=2''
   \<and> fst (hash_key (example_env not_modified) example_url fresh_world)
       = Inr [''tea'', ''www'', ''https'', ''example.com'', sha256 ''/a/b.tar.gz??v=2'']
   \<and> fst (hash_key (example_env not_modified) example_url fresh_world)
       \<noteq> Inr [''tea'', ''www'', ''https'', ''example.com'', sha256 ''/a/b.tar.gz?v=2'']
   \<and> fst (download (example_env (modified [''pay'', ''load''])) example_opts fresh_world)
       = Inr [''tea'', ''www'', ''https'', ''example.com'', sha256 ''/a/b.tar.gz??v=2'',
              ''b.tar.gz'']
   \<and> files (snd (download (example_env (modified [''pay'', ''load''])) example_opts fresh_world))
        [''tea'', ''www'', ''https'', ''example.com'', sha256 ''/a/b.tar.gz??v=2'', ''b.tar.gz'']
       = Some ''payload''"
  using sha256_example_inputs by (simp add: model_defs example_defs)

text \<open>
  C2. For every call of \<^verbatim>\<open>download_with_sha\<close> that the server answers with 304 and whose
  destination file exists, the call returns the destination with the SHA-256 of the bytes
  the file holds; the file (every file) is as before, so the digest is that of its final
  bytes; and the only request of the call is the one that was answered 304.
\<close>

theorem cache_hit_digest:
  assumes "internal_request e opts w = (Inr (d, hs), w1)"
    and "fetch e (src opts) hs = Some rsp"
    and "status rsp = 304"
    and "files w d = Some content"
  shows "fst (download_with_sha e opts w) = Inr (d, sha256 content)
         \<and> files (snd (download_with_sha e opts w)) = files w
         \<and> (\<exists>m. trace (snd (download_with_sha e opts w))
                  = trace w @ [Log m, Fetch (src opts) hs, Log Cache_hit, Log Verifying])"
proof -
  from assms(1) have r: "internal_request e opts (sha_init w) = (Inr (d, hs), sha_init w1)"
    by (simp add: internal_request_sha_init)
  note i = internal_304 [OF r assms(2,3), of "sha_body e"]
  from internal_request_Inr(3,6) [OF assms(1)] obtain m where
    f: "files w1 = files w" and t: "trace w1 = trace w @ [Log m]"
    by blast
  from i f t assms(4) show ?thesis
    by (simp add: download_with_sha_def emit_def world_of_def)
qed

theorem cache_hit_digest_witness:
  "download_with_sha (example_env not_modified) example_opts cached_world =
     (Inr (example_key @ [''b.tar.gz''], sha256 ''payload''),
      cached_world\<lparr>trace := [Log Querying,
         Fetch example_url [(''If-Modified-Since'', ''Wed, 21 Oct 2015 07:28:00 GMT'')],
         Log Cache_hit, Log Verifying]\<rparr>)"
proof -
  let ?hs = "[(''If-Modified-Since'', ''Wed, 21 Oct 2015 07:28:00 GMT'')]"
  have r: "internal_request (example_env not_modified) example_opts cached_world =
     (Inr (example_key @ [''b.tar.gz''], ?hs), cached_world\<lparr>trace := [Log Querying]\<rparr>)"
    by (simp add: model_defs example_defs)
  have f: "fetch (example_env not_modified) (src example_opts) ?hs
           = Some \<lparr>status = 304, rsp_headers = [], body = None\<rparr>"
    by (simp add: example_defs)
  have s: "status \<lparr>status = 304, rsp_headers = [], body = None\<rparr> = 304" by simp
  have c: "files cached_world (example_key @ [''b.tar.gz'']) = Some ''payload''"
    by (simp add: cached_world_def)
  from cache_hit_digest [OF r f s c]
  have "fst (download_with_sha (example_env not_modified) example_opts cached_world)
          = Inr (example_key @ [''b.tar.gz''], sha256 ''payload'')"
    by simp
  moreover have "snd (download_with_sha (example_env not_modified) example_opts cached_world)
     = cached_world\<lparr>trace := [Log Querying, Fetch example_url ?hs, Log Cache_hit, Log Verifying]\<rparr>"
    by (simp add: model_defs example_defs)
  ultimately show ?thesis by (simp add: prod_eq_iff)
qed

text \<open>
  C3, as amended. The claim (the digest is given only when bytes were streamed, and a
  cache hit is not hashed) fails: on a 304 \<^verbatim>\<open>download_with_sha\<close> returns the digest of
  the cached file although nothing was streamed (\<open>cache_hit_sha_counterexample\<close>). What
  holds: whenever \<^verbatim>\<open>download_with_sha\<close> returns, it returns a digest; after a 200 it is
  the SHA-256 of the streamed body, and otherwise (304, or the permissive fallback) the
  SHA-256 of the existing destination file, which the call reads itself and leaves as it
  was.
\<close>

theorem sha_always_populated:
  assumes "internal_request e opts w = (Inr (d, hs), w1)"
    and "fetch e (src opts) hs = Some rsp"
    and "download_with_sha e opts w = (Inr (p, sha), w')"
  shows "p = d
         \<and> (if status rsp = 200
            then \<exists>reader. body rsp = Some reader \<and> \<not> broken reader
                   \<and> sha = sha256 (concat (chunks reader))
            else \<exists>content. files w d = Some content \<and> sha = sha256 content
                   \<and> files w' = files w)"
proof (cases "status rsp = 200")
  case True
  from sha_200_Inr [OF assms(1,2) True assms(3)] True show ?thesis by auto
next
  case False
  from assms(1) have r: "internal_request e opts (sha_init w) = (Inr (d, hs), sha_init w1)"
    by (simp add: internal_request_sha_init)
  have f1: "files w1 = files w" by (rule internal_request_Inr(3) [OF assms(1)])
  show ?thesis
  proof (cases "status rsp = 304")
    case True
    let ?s = "emit (Log Cache_hit) (emit (Fetch (src opts) hs) (sha_init w1))"
    have "run ?s = False" "digest ?s = []" "files ?s = files w"
      by (simp_all add: emit_def f1)
    from sha_unrun [OF internal_304 [OF r assms(2) True] this assms(3)] False
    show ?thesis by auto
  next
    case other: False
    let ?s = "emit (Fetch (src opts) hs) (sha_init w1)"
    have s: "run ?s = False" "digest ?s = []" "files ?s = files w"
      by (simp_all add: emit_def f1)
    note i = internal_other [OF r assms(2) False other, of "sha_body e"]
    show ?thesis
    proof (cases "numpty e \<and> isFile (sha_init w) d")
      case True
      with i have "internal e opts (sha_body e) (sha_init w) = (Inr d, ?s)" by simp
      from sha_unrun [OF this s assms(3)] False show ?thesis by auto
    next
      case False
      with i assms(3) show ?thesis by (auto simp: download_with_sha_def)
    qed
  qed
qed

theorem sha_always_populated_witness:
  "fst (download_with_sha (example_env (modified [''pay'', ''load''])) example_opts fresh_world)
     = Inr (example_key @ [''b.tar.gz''], sha256 ''payload'')
   \<and> (\<exists>reader. Some \<lparr>chunks = [''pay'', ''load''], broken = False\<rparr> = Some reader
         \<and> \<not> broken reader \<and> sha256 ''payload'' = sha256 (concat (chunks reader)))"
proof -
  let ?e = "example_env (modified [''pay'', ''load''])"
  let ?rsp = "\<lparr>status = 200,
           rsp_headers = [(''Last-Modified'', ''Thu, 22 Oct 2015 09:00:00 GMT'')],
           body = Some \<lparr>chunks = [''pay'', ''load''], broken = False\<rparr>\<rparr>"
  let ?d = "example_key @ [''b.tar.gz'']"
  have a1: "internal_request ?e example_opts fresh_world =
              (Inr (?d, []), snd (internal_request ?e example_opts fresh_world))"
    by (simp add: model_defs example_defs)
  have a2: "fetch ?e (src example_opts) [] = Some ?rsp"
    by (simp add: example_defs)
  have d: "fst (download_with_sha ?e example_opts fresh_world) = Inr (?d, sha256 ''payload'')"
    by (simp add: model_defs example_defs)
  then have a3: "download_with_sha ?e example_opts fresh_world
                   = (Inr (?d, sha256 ''payload''), snd (download_with_sha ?e example_opts fresh_world))"
    by (simp add: prod_eq_iff)
  from sha_always_populated [OF a1 a2 a3] d show ?thesis by simp
qed

theorem cache_hit_sha_counterexample:
  "fst (download_with_sha (example_env not_modified) example_opts cached_world)
     = Inr (example_key @ [''b.tar.gz''], sha256 ''payload'')
   \<and> filter (streamed (example_key @ [''b.tar.gz'']))
        (trace (snd (download_with_sha (example_env not_modified) example_opts cached_world)))
     = []"
  by (simp add: model_defs example_defs streamed_def)




text \<open>
  C5. For every response whose status is neither 200 nor 304, the download fails with the
  error that carries the status and the URL, unless \<^verbatim>\<open>numpty\<close> (the permissive mode)
  is set and the destination file already exists, in which case the path of the existing
  file is returned.
\<close>

theorem unexpected_status:
  assumes "internal_request e opts w = (Inr (d, hs), w1)"
    and "fetch e (src opts) hs = Some rsp"
    and "status rsp \<noteq> 200" and "status rsp \<noteq> 304"
  shows "fst (internal e opts bodyf w) =
           (if numpty e \<and> isFile w d then Inr d
            else Inl (Unexpected_status (status rsp) (src opts)))"
  using internal_other [OF assms, of bodyf] by simp

theorem unexpected_status_witness:
  "fst (download (example_env server_error) example_opts cached_world)
     = Inl (Unexpected_status 500 example_url)
   \<and> fst (download ((example_env server_error)\<lparr>numpty := True\<rparr>) example_opts cached_world)
     = Inr (example_key @ [''b.tar.gz''])"
proof -
  let ?hs = "[(''If-Modified-Since'', ''Wed, 21 Oct 2015 07:28:00 GMT'')]"
  let ?rsp = "\<lparr>status = 500, rsp_headers = [], body = None\<rparr>"
  have r1: "internal_request (example_env server_error) example_opts cached_world =
     (Inr (example_key @ [''b.tar.gz''], ?hs), cached_world\<lparr>trace := [Log Querying]\<rparr>)"
    by (simp add: model_defs example_defs)
  have r2: "internal_request ((example_env server_error)\<lparr>numpty := True\<rparr>) example_opts cached_world =
     (Inr (example_key @ [''b.tar.gz''], ?hs), cached_world\<lparr>trace := [Log Querying]\<rparr>)"
    by (simp add: model_defs example_defs)
  have f1: "fetch (example_env server_error) (src example_opts) ?hs = Some ?rsp"
    and f2: "fetch ((example_env server_error)\<lparr>numpty := True\<rparr>) (src example_opts) ?hs = Some ?rsp"
    by (simp_all add: example_defs)
  have s: "status ?rsp \<noteq> 200" "status ?rsp \<noteq> 304" by simp_all
  have i: "isFile cached_world (example_key @ [''b.tar.gz''])"
    by (simp add: isFile_def cached_world_def)
  from unexpected_status [OF r1 f1 s, of "\<lambda>reader f sz. copy reader f"]
       unexpected_status [OF r2 f2 s, of "\<lambda>reader f sz. copy reader f"] i
  show ?thesis
    by (simp add: download_def example_env_def example_opts_def)
qed

text \<open>
  C6. The claim: the digest that \<^verbatim>\<open>download_with_sha\<close> returns for a streamed body is
  the digest of the file that was written. The code at the URL
  \<^verbatim>\<open>https://example.com/mtime\<close>, answered 200 with a \<^verbatim>\<open>Last-Modified\<close> header: the
  default destination is the marker path, the body \<^verbatim>\<open>payload\<close> is written and hashed,
  and line 77 then overwrites the same file with the header's text; the call returns the
  digest of \<^verbatim>\<open>payload\<close> for a file that holds the date, whose digest is another. Away
  from this collision the
  claim holds, for every order of the two consumers (\<open>digest_matches_file\<close>).
\<close>

theorem digest_of_overwritten_payload:
  "fst (download_with_sha (example_env (modified [''pay'', ''load''])) mtime_opts fresh_world)
     = Inr (mtime_key @ [''mtime''], sha256 ''payload'')
   \<and> files (snd (download_with_sha (example_env (modified [''pay'', ''load''])) mtime_opts
                fresh_world)) (mtime_key @ [''mtime''])
     = Some ''Thu, 22 Oct 2015 09:00:00 GMT''
   \<and> sha256 ''payload'' \<noteq> sha256 ''Thu, 22 Oct 2015 09:00:00 GMT''"
  using sha256_payload_date by (simp add: model_defs example_defs)

text \<open>
  C7. The claim: the marker is written after the body is persisted, only with a
  \<^verbatim>\<open>Last-Modified\<close> header, and keeps its prior state when the body write fails. The
  code at \<^verbatim>\<open>https://example.com/mtime\<close> with a stored marker, answered 200 with a body
  that breaks off after \<^verbatim>\<open>pay\<close>: the destination is the marker file, line 70 empties
  it and the copy writes into it, so the call fails and the marker holds \<^verbatim>\<open>pay\<close>
  instead of the stored date. The order of the writes is as claimed
  (\<open>marker_written_last\<close>), and the marker keeps its state on failure whenever the
  destination is another file (\<open>marker_kept_on_failure\<close>).
\<close>

theorem failed_body_clobbers_marker:
  "marker (example_env broken_server) mtime_url = mtime_key @ [''mtime'']
   \<and> files mtime_world (mtime_key @ [''mtime'']) = Some ''Wed, 21 Oct 2015 07:28:00 GMT''
   \<and> fst (download (example_env broken_server) mtime_opts mtime_world) = Inl Transport_error
   \<and> files (snd (download (example_env broken_server) mtime_opts mtime_world))
        (mtime_key @ [''mtime''])
     = Some ''pay''"
  by (simp add: marker_def model_defs example_defs)

text \<open>
  C8. For every download that receives a 304 response, no body is copied and the
  destination file's bytes are left exactly as they were before the call: \<^verbatim>\<open>internal\<close>
  returns the destination, the body callback (any \<open>bodyf\<close>, so both \<^verbatim>\<open>download\<close> and
  \<^verbatim>\<open>download_with_sha\<close>) is not run, no file changes, and the call only logs, sends
  its one request and logs the cache hit.
\<close>

theorem not_modified_leaves_file:
  assumes "internal_request e opts w = (Inr (d, hs), w1)"
    and "fetch e (src opts) hs = Some rsp"
    and "status rsp = 304"
  shows "fst (internal e opts bodyf w) = Inr d
         \<and> files (snd (internal e opts bodyf w)) = files w
         \<and> world.more (snd (internal e opts bodyf w)) = world.more w
         \<and> (\<exists>m. trace (snd (internal e opts bodyf w))
                  = trace w @ [Log m, Fetch (src opts) hs, Log Cache_hit])"
proof -
  from internal_304 [OF assms, of bodyf] internal_request_Inr(3,4,6) [OF assms(1)]
  show ?thesis by (auto simp: emit_def)
qed

theorem not_modified_leaves_file_witness:
  "fst (download (example_env not_modified) example_opts cached_world)
     = Inr (example_key @ [''b.tar.gz''])
   \<and> files (snd (download (example_env not_modified) example_opts cached_world))
     = files cached_world
   \<and> files cached_world (example_key @ [''b.tar.gz'']) = Some ''payload''"
proof -
  have r: "internal_request (example_env not_modified) example_opts cached_world =
     (Inr (example_key @ [''b.tar.gz''], [(''If-Modified-Since'', ''Wed, 21 Oct 2015 07:28:00 GMT'')]),
      cached_world\<lparr>trace := [Log Querying]\<rparr>)"
    by (simp add: model_defs example_defs)
  have f: "fetch (example_env not_modified) (src example_opts)
             [(''If-Modified-Since'', ''Wed, 21 Oct 2015 07:28:00 GMT'')]
           = Some \<lparr>status = 304, rsp_headers = [], body = None\<rparr>"
    by (simp add: example_defs)
  have s: "status \<lparr>status = 304, rsp_headers = [], body = None\<rparr> = 304" by simp
  from not_modified_leaves_file [OF r f s, of "\<lambda>reader f sz. copy reader f"]
  show ?thesis by (simp add: download_def cached_world_def)
qed




text \<open>
  C10. For every call of \<^verbatim>\<open>internal\<close> with \<^verbatim>\<open>ephemeral\<close> set that receives a 200
  response with a (non-empty) \<^verbatim>\<open>Last-Modified\<close> header and returns: the marker file
  holds the header's text afterwards; a destination that was not supplied lies directly
  in the cache key directory; and every later call for the same URL and destination with
  \<^verbatim>\<open>ephemeral\<close> false sends \<^verbatim>\<open>If-Modified-Since\<close> with that text. The body callback
  is any that meets \<open>body_spec\<close>, as those of \<^verbatim>\<open>download\<close> and
  \<^verbatim>\<open>download_with_sha\<close> do.
\<close>

theorem ephemeral_records_marker:
  assumes "body_spec bodyf"
    and "ephemeral opts"
    and "internal_request e opts w = (Inr (d, hs), w1)"
    and "fetch e (src opts) hs = Some rsp" and "status rsp = 200"
    and "last_modified rsp = Some text"
    and "internal e opts bodyf w = (Inr p, w')"
  shows "files w' (marker e (src opts)) = Some text
         \<and> (dst opts = None \<longrightarrow> parent p = cache_key e (src opts))
         \<and> (\<forall>e2 opts2 d2 hs2 w2.
               www e2 = www e \<and> src opts2 = src opts \<and> dst opts2 = dst opts
               \<and> \<not> ephemeral opts2 \<and> internal_request e2 opts2 w' = (Inr (d2, hs2), w2)
               \<longrightarrow> map_of hs2 ''If-Modified-Since'' = Some text)"
proof -
  let ?w2 = "emit (Fetch (src opts) hs) w1"
  note i = internal_200 [OF assms(3,4,5), of bodyf]
  from assms(7) i obtain u where
    s: "status_200 e opts d rsp bodyf ?w2 = (Inr u, w')" and p: "p = d"
    by (auto split: prod.splits sum.splits)
  from status_200_Inr [OF assms(1) s] assms(6) obtain reader :: stream where
    nd: "d \<notin> dirs ?w2"
    and f: "files w' = (files ?w2)(d \<mapsto> concat (chunks reader), marker e (src opts) \<mapsto> text)"
    by auto
  note r = internal_request_Inr(1) [OF assms(3)]
  from f have m: "files w' (marker e (src opts)) = Some text" by simp
  from f have fd: "files w' (destination e opts) \<noteq> None" by (simp add: r)
  have inside: "dst opts = None \<longrightarrow> parent p = cache_key e (src opts)"
  proof
    assume n: "dst opts = None"
    from internal_request_key [OF assms(3) n] nd
    have ne: "destination e opts \<noteq> cache_key e (src opts)"
      by (auto simp: emit_def r)
    from default_destination_inside [OF n ne] show "parent p = cache_key e (src opts)"
      by (simp add: p r)
  qed
  have later: "\<forall>e2 opts2 d2 hs2 w2.
               www e2 = www e \<and> src opts2 = src opts \<and> dst opts2 = dst opts
               \<and> \<not> ephemeral opts2 \<and> internal_request e2 opts2 w' = (Inr (d2, hs2), w2)
               \<longrightarrow> map_of hs2 ''If-Modified-Since'' = Some text"
  proof (intro allI impI, elim conjE)
    fix e2 opts2 d2 hs2 and w2 :: "'a world_scheme"
    assume a: "www e2 = www e" "src opts2 = src opts" "dst opts2 = dst opts"
      "\<not> ephemeral opts2" "internal_request e2 opts2 w' = (Inr (d2, hs2), w2)"
    from baseline_after [OF m fd a(1,2,3)] have "baseline e2 opts2 w' = Some text" .
    with internal_request_Inr(2) [OF a(5)] a(4)
    show "map_of hs2 ''If-Modified-Since'' = Some text"
      by (simp add: request_headers_def map_of_authorization update_conv')
  qed
  from m inside later show ?thesis by blast
qed

theorem ephemeral_records_marker_witness:
  "ephemeral ephemeral_opts
   \<and> fst (download (example_env (modified [''pay'', ''load''])) ephemeral_opts fresh_world)
       = Inr (example_key @ [''b.tar.gz''])
   \<and> files (snd (download (example_env (modified [''pay'', ''load''])) ephemeral_opts fresh_world))
        (example_key @ [''mtime'']) = Some ''Thu, 22 Oct 2015 09:00:00 GMT''
   \<and> parent (example_key @ [''b.tar.gz'']) = example_key
   \<and> fst (internal_request (example_env not_modified) example_opts
        (snd (download (example_env (modified [''pay'', ''load''])) ephemeral_opts fresh_world)))
       = Inr (example_key @ [''b.tar.gz''],
              [(''If-Modified-Since'', ''Thu, 22 Oct 2015 09:00:00 GMT'')])"
proof -
  let ?e = "example_env (modified [''pay'', ''load''])"
  let ?rsp = "\<lparr>status = 200,
           rsp_headers = [(''Last-Modified'', ''Thu, 22 Oct 2015 09:00:00 GMT'')],
           body = Some \<lparr>chunks = [''pay'', ''load''], broken = False\<rparr>\<rparr>"
  let ?w' = "snd (download ?e ephemeral_opts fresh_world)"
  let ?d = "example_key @ [''b.tar.gz'']"
  let ?hs2 = "[(''If-Modified-Since'', ''Thu, 22 Oct 2015 09:00:00 GMT'')]"
  have k: "marker ?e (src ephemeral_opts) = example_key @ [''mtime'']"
    "cache_key ?e (src ephemeral_opts) = example_key"
    by (simp_all add: marker_def model_defs example_defs)
  have a1: "ephemeral ephemeral_opts" by (simp add: ephemeral_opts_def)
  have a2: "internal_request ?e ephemeral_opts fresh_world =
              (Inr (?d, []), snd (internal_request ?e ephemeral_opts fresh_world))"
    by (simp add: model_defs example_defs)
  have a3: "fetch ?e (src ephemeral_opts) [] = Some ?rsp"
    by (simp add: example_defs)
  have a4: "status ?rsp = 200" by simp
  have a5: "last_modified ?rsp = Some ''Thu, 22 Oct 2015 09:00:00 GMT''"
    by (simp add: last_modified_def header_get_def)
  have d: "fst (download ?e ephemeral_opts fresh_world) = Inr ?d"
    by (simp add: model_defs example_defs)
  then have a6: "internal ?e ephemeral_opts (\<lambda>reader f sz. copy reader f) fresh_world
                   = (Inr ?d, ?w')"
    by (simp add: prod_eq_iff download_def)
  have i: "fst (internal_request (example_env not_modified) example_opts ?w') = Inr (?d, ?hs2)"
    by (simp add: model_defs example_defs)
  then have a7: "internal_request (example_env not_modified) example_opts ?w'
                   = (Inr (?d, ?hs2), snd (internal_request (example_env not_modified) example_opts ?w'))"
    by (simp add: prod_eq_iff)
  have "www (example_env not_modified) = www ?e" "src example_opts = src ephemeral_opts"
    "dst example_opts = dst ephemeral_opts" "\<not> ephemeral example_opts"
    "dst ephemeral_opts = None"
    by (simp_all add: example_defs)
  with ephemeral_records_marker [OF body_spec_copy a1 a2 a3 a4 a5 a6] a7 a1 d i show ?thesis
    by (simp add: k)
qed
end
